theory Spec2Isabelle
  imports Complex_Main "HOL-Library.Word" "HOL-Library.Sublist"
begin

section \<open>Machine types and memory\<close>

text \<open>
  The program is one C file, \<^verbatim>\<open>main.c\<close>. Bytes (\<^verbatim>\<open>uint8_t\<close>) are 8-bit words.
  Values of C type \<^verbatim>\<open>int\<close> are modelled by \<^typ>\<open>int\<close>; the source never relies on
  wrap-around, and the theorems about the converter carry the hypothesis that the frame
  has fewer than \<open>2^31\<close> output bytes, under which no intermediate value of the source
  leaves the range of \<^verbatim>\<open>int\<close>. Loop counters that start at 0 and only grow are
  naturals.

  A buffer is the list of its bytes. A read or write outside a buffer is undefined
  behaviour in C; the model makes it a value, \<open>Inl\<close> of the offending access.
\<close>

type_synonym u8 = "8 word"
type_synonym u32 = "32 word"

datatype mem_error = ReadOutOfBounds nat | WriteOutOfBounds nat

text \<open>Sequencing of steps that may fault: the first fault ends the computation.\<close>

definition ebind :: "'e + 'a \<Rightarrow> ('a \<Rightarrow> 'e + 'b) \<Rightarrow> 'e + 'b" where
  "ebind m f = (case m of Inl e \<Rightarrow> Inl e | Inr a \<Rightarrow> f a)"

text \<open>
  The output buffer together with the log of the offsets written so far, in order;
  the log is what the claim about "every byte written exactly once" is stated on.
\<close>

record out_buf =
  bytes :: "u8 list"
  written :: "nat list"

definition load_u8 :: "u8 list \<Rightarrow> nat \<Rightarrow> mem_error + int" where
  "load_u8 m k = (if k < length m then Inr (uint (m ! k)) else Inl (ReadOutOfBounds k))"

definition store_u8 :: "nat \<Rightarrow> u8 \<Rightarrow> out_buf \<Rightarrow> mem_error + out_buf" where
  "store_u8 k v b =
     (if k < length (bytes b)
      then Inr (b\<lparr>bytes := (bytes b)[k := v], written := written b @ [k]\<rparr>)
      else Inl (WriteOutOfBounds k))"

section \<open>FrameConverter: \<^verbatim>\<open>clamp_u8\<close> and \<^verbatim>\<open>yuyv_to_rgb24\<close>\<close>

definition clamp_u8 :: "int \<Rightarrow> u8" where
  "clamp_u8 x = (if x < 0 then 0 else if x > 255 then 255 else word_of_int x)"

text \<open>
  \<^verbatim>\<open>x >> 8\<close> on a (possibly negative) \<^verbatim>\<open>int\<close> is the arithmetic shift of the
  compilers the program builds with, which is \<^term>\<open>drop_bit 8\<close> on \<^typ>\<open>int\<close>: division
  by 256 rounding towards minus infinity.
\<close>

definition yuyv_body :: "u8 list \<Rightarrow> nat \<Rightarrow> nat \<Rightarrow> out_buf \<Rightarrow> mem_error + out_buf" where
  "yuyv_body yuyv i j b =
     ebind (load_u8 yuyv (j + 0)) (\<lambda>y0.
     ebind (load_u8 yuyv (j + 1)) (\<lambda>u'.
     ebind (load_u8 yuyv (j + 2)) (\<lambda>y1.
     ebind (load_u8 yuyv (j + 3)) (\<lambda>v'.
       let u = u' - 128;
           v = v' - 128;
           c0 = y0 - 16;
           c1 = y1 - 16;
           r0 = drop_bit 8 (298 * c0 + 409 * v + 128);
           g0 = drop_bit 8 (298 * c0 - 100 * u - 208 * v + 128);
           b0 = drop_bit 8 (298 * c0 + 516 * u + 128);
           r1 = drop_bit 8 (298 * c1 + 409 * v + 128);
           g1 = drop_bit 8 (298 * c1 - 100 * u - 208 * v + 128);
           b1 = drop_bit 8 (298 * c1 + 516 * u + 128);
           out0 = i * 3;
           out1 = (i + 1) * 3
       in ebind (store_u8 (out0 + 0) (clamp_u8 r0) b) (\<lambda>b.
          ebind (store_u8 (out0 + 1) (clamp_u8 g0) b) (\<lambda>b.
          ebind (store_u8 (out0 + 2) (clamp_u8 b0) b) (\<lambda>b.
          ebind (store_u8 (out1 + 0) (clamp_u8 r1) b) (\<lambda>b.
          ebind (store_u8 (out1 + 1) (clamp_u8 g1) b) (\<lambda>b.
                 store_u8 (out1 + 2) (clamp_u8 b1) b)))))))))"

function yuyv_loop :: "u8 list \<Rightarrow> int \<Rightarrow> nat \<Rightarrow> nat \<Rightarrow> out_buf \<Rightarrow> mem_error + out_buf" where
  "yuyv_loop yuyv npix i j b =
     (if int i < npix
      then (case yuyv_body yuyv i j b of
              Inl e \<Rightarrow> Inl e
            | Inr b' \<Rightarrow> yuyv_loop yuyv npix (i + 2) (j + 4) b')
      else Inr b)"
  by pat_completeness auto
termination
  by (relation "measure (\<lambda>(yuyv, npix, i, j, b). nat (npix - int i))") auto

definition yuyv_to_rgb24 :: "u8 list \<Rightarrow> u8 list \<Rightarrow> int \<Rightarrow> int \<Rightarrow> mem_error + out_buf" where
  "yuyv_to_rgb24 yuyv rgb w h =
     (let npix = w * h in yuyv_loop yuyv npix 0 0 \<lparr>bytes = rgb, written = []\<rparr>)"

text \<open>
  The transform in the words of the specification, one function per channel, on a luma
  sample \<open>y\<close> and the chroma pair \<open>u\<close>, \<open>v\<close> of its macropixel (all in \<open>0..255\<close>).
\<close>

definition spec_clamp :: "int \<Rightarrow> int" where
  "spec_clamp x = max 0 (min 255 x)"

definition spec_R :: "int \<Rightarrow> int \<Rightarrow> int \<Rightarrow> int" where
  "spec_R y u v = spec_clamp ((298 * (y - 16) + 409 * (v - 128) + 128) div 2 ^ 8)"

definition spec_G :: "int \<Rightarrow> int \<Rightarrow> int \<Rightarrow> int" where
  "spec_G y u v =
     spec_clamp ((298 * (y - 16) - 100 * (u - 128) - 208 * (v - 128) + 128) div 2 ^ 8)"

definition spec_B :: "int \<Rightarrow> int \<Rightarrow> int \<Rightarrow> int" where
  "spec_B y u v = spec_clamp ((298 * (y - 16) + 516 * (u - 128) + 128) div 2 ^ 8)"

text \<open>
  The samples of pixel \<open>p\<close> in a packed frame: luma at byte \<open>2p\<close>, the chroma pair of its
  macropixel \<open>p div 2\<close> at bytes \<open>4 (p div 2) + 1\<close> and \<open>4 (p div 2) + 3\<close>.
\<close>

definition luma :: "u8 list \<Rightarrow> nat \<Rightarrow> int" where
  "luma yuyv p = uint (yuyv ! (2 * p))"

definition chroma_u :: "u8 list \<Rightarrow> nat \<Rightarrow> int" where
  "chroma_u yuyv p = uint (yuyv ! (4 * (p div 2) + 1))"

definition chroma_v :: "u8 list \<Rightarrow> nat \<Rightarrow> int" where
  "chroma_v yuyv p = uint (yuyv ! (4 * (p div 2) + 3))"

text \<open>
  The byte the transform of the specification puts at channel \<open>c\<close> (0 red, 1 green,
  2 blue) of pixel \<open>p\<close>.
\<close>

definition px :: "u8 list \<Rightarrow> nat \<Rightarrow> nat \<Rightarrow> u8" where
  "px yuyv p c =
     word_of_int
       ((if c = 0 then spec_R else if c = 1 then spec_G else spec_B)
          (luma yuyv p) (chroma_u yuyv p) (chroma_v yuyv p))"

text \<open>
  The loop takes two pixels at a time, so it runs \<open>macropixels w h\<close> times: half the
  pixel count, rounded up.
\<close>

definition macropixels :: "int \<Rightarrow> int \<Rightarrow> nat" where
  "macropixels w h = nat ((w * h + 1) div 2)"

text \<open>
  The frames on which the model's integers are the source's: no value the loop computes
  (the largest is the last output offset, or the counter after the last round) leaves
  the range of a 32-bit \<^verbatim>\<open>int\<close>.
\<close>

definition frame_in_int_range :: "int \<Rightarrow> int \<Rightarrow> bool" where
  "frame_in_int_range w h = (0 \<le> w \<and> 0 \<le> h \<and> 3 * (w * h + 1) < 2 ^ 31)"

text \<open>The neutral-point property in the specification's words: a channel within 1 of 128.\<close>

definition within_one_of_128 :: "u8 \<Rightarrow> bool" where
  "within_one_of_128 c = (127 \<le> uint c \<and> uint c \<le> 129)"

definition neutral_within_one :: "mem_error + out_buf \<Rightarrow> bool" where
  "neutral_within_one r = (case r of Inl e \<Rightarrow> False | Inr b \<Rightarrow> list_all within_one_of_128 (bytes b))"

section \<open>FrameBuffer allocation in \<^verbatim>\<open>proc_video\<close>\<close>

text \<open>
  \<^verbatim>\<open>*args->rgb_size = (size_t)width * (size_t)height * 3\<close> on the negotiated
  \<^verbatim>\<open>fmt.pix.width\<close> and \<^verbatim>\<open>fmt.pix.height\<close>, which are 32-bit unsigned; \<^verbatim>\<open>size_t\<close>
  has 64 bits on the program's targets and its arithmetic wraps. The converter then
  receives the two dimensions as \<^verbatim>\<open>int\<close>, which is \<^term>\<open>sint\<close>.
\<close>

definition rgb_size :: "u32 \<Rightarrow> u32 \<Rightarrow> nat" where
  "rgb_size width height = (unat width * unat height * 3) mod 2 ^ 64"

definition convert_frame :: "u8 list \<Rightarrow> u8 list \<Rightarrow> u32 \<Rightarrow> u32 \<Rightarrow> mem_error + out_buf" where
  "convert_frame yuyv rgb width height = yuyv_to_rgb24 yuyv rgb (sint width) (sint height)"

text \<open>
  The safety property in the specification's words: the call returns, and its write log
  holds every offset of the buffer exactly once and no other offset.
\<close>

definition writes_each_byte_once :: "nat \<Rightarrow> mem_error + out_buf \<Rightarrow> bool" where
  "writes_each_byte_once sz r =
     (case r of Inl e \<Rightarrow> False
      | Inr b \<Rightarrow> distinct (written b) \<and> set (written b) = {0 ..< sz})"

section \<open>Presenter: \<^verbatim>\<open>integer_fit_rect\<close>\<close>

text \<open>
  \<^verbatim>\<open>SDL_FRect\<close> has four \<^verbatim>\<open>float\<close> fields. Every value the function stores is an
  integer converted to \<^verbatim>\<open>float\<close>, or such a value halved, so it is a rational number and
  the model keeps it exactly. What the conversion \<^verbatim>\<open>(float)n\<close> does is modelled in
  full: a \<^verbatim>\<open>float\<close> has a 24-bit significand, so an integer of more than 24 bits loses
  its low bits, rounding to nearest with ties to even.
\<close>

record SDL_FRect =
  rect_x :: rat
  rect_y :: rat
  rect_w :: rat
  rect_h :: rat

function dropped_bits :: "nat \<Rightarrow> nat" where
  "dropped_bits a = (if a < 2 ^ 24 then 0 else Suc (dropped_bits (a div 2)))"
  by pat_completeness auto
termination
  by (relation "measure (\<lambda>a. a)") auto

definition f32_of_int :: "int \<Rightarrow> int" where
  "f32_of_int n =
     (let a = nat \<bar>n\<bar>;
          e = dropped_bits a;
          q = a div 2 ^ e;
          r = a mod 2 ^ e;
          q' = (if 2 * r > 2 ^ e \<or> (2 * r = 2 ^ e \<and> odd q) then q + 1 else q)
      in sgn n * int (q' * 2 ^ e))"

text \<open>
  \<^verbatim>\<open>/\<close> on \<^verbatim>\<open>int\<close> truncates towards zero, and traps on a zero divisor: the model
  returns \<open>None\<close> there. \<^verbatim>\<open>(int)r.w\<close> reads back a \<^verbatim>\<open>float\<close> that holds an integer.
\<close>

definition c_div :: "int \<Rightarrow> int \<Rightarrow> int" where
  "c_div a b = sgn a * sgn b * (\<bar>a\<bar> div \<bar>b\<bar>)"

definition integer_fit_rect :: "int \<Rightarrow> int \<Rightarrow> int \<Rightarrow> int \<Rightarrow> SDL_FRect option" where
  "integer_fit_rect src_w src_h dst_w dst_h =
     (if src_w = 0 \<or> src_h = 0 then None
      else
        let sx = c_div dst_w src_w;
            sy = c_div dst_h src_h;
            s = (if sx < sy then sx else sy);
            s = (if s < 1 then 1 else s);
            rw = f32_of_int (src_w * s);
            rh = f32_of_int (src_h * s)
        in Some \<lparr>rect_x = of_int (f32_of_int (dst_w - rw)) * (1 / 2),
                 rect_y = of_int (f32_of_int (dst_h - rh)) * (1 / 2),
                 rect_w = of_int rw,
                 rect_h = of_int rh\<rparr>)"

text \<open>
  The fit rectangle in the specification's words: the scale is
  \<open>max(1, floor(min(dstW/srcW, dstH/srcH)))\<close> with exact division, the rectangle has size
  \<open>srcW*scale\<close> by \<open>srcH*scale\<close> and is centred, that is, it leaves the same margin on
  both sides.
\<close>

definition fit_scale_spec :: "int \<Rightarrow> int \<Rightarrow> int \<Rightarrow> int \<Rightarrow> int" where
  "fit_scale_spec src_w src_h dst_w dst_h =
     max 1 \<lfloor>min (rat_of_int dst_w / rat_of_int src_w) (rat_of_int dst_h / rat_of_int src_h)\<rfloor>"

definition fit_rect_spec :: "int \<Rightarrow> int \<Rightarrow> int \<Rightarrow> int \<Rightarrow> SDL_FRect" where
  "fit_rect_spec src_w src_h dst_w dst_h =
     (let scale = fit_scale_spec src_w src_h dst_w dst_h
      in \<lparr>rect_x = (rat_of_int dst_w - rat_of_int (src_w * scale)) / 2,
          rect_y = (rat_of_int dst_h - rat_of_int (src_h * scale)) / 2,
          rect_w = rat_of_int (src_w * scale),
          rect_h = rat_of_int (src_h * scale)\<rparr>)"

section \<open>Audio device selection: \<^verbatim>\<open>pick_recording_device\<close>, \<^verbatim>\<open>pick_playback_device\<close>\<close>

text \<open>
  What the two workers and the selection functions print on \<^verbatim>\<open>stderr\<close>, one
  constructor per \<^verbatim>\<open>fprintf(stderr, ...)\<close> or \<^verbatim>\<open>perror\<close> of theirs. The listings and
  confirmations they print on \<^verbatim>\<open>stdout\<close>, and the messages of \<^verbatim>\<open>main\<close>, are not
  modelled.
\<close>

datatype message =
    IndexUnavailable int
  | RecordingNotFound string
  | SinkUnavailable int
  | OpenRecordingFailed
  | OpenPlaybackFailed
  | BindRecStreamFailed
  | BindOutStreamFailed
  | GetAudioStreamDataFailed
  | PutAudioStreamDataFailed
  | S_FMT_Failed
  | REQBUFS_Failed
  | CallocFailed
  | QUERYBUF_Failed
  | MmapFailed
  | QBUF_Failed
  | STREAMON_Failed
  | CreateWindowFailed
  | CreateRendererFailed
  | CreateTextureFailed
  | MallocFailed
  | SelectFailed
  | DQBUF_Failed
  | RequeueFailed

text \<open>
  Modelled from the spec: "the system default" device of each direction. The two
  identifiers are constants of the SDL3 header, which is not part of the sources; the
  values are the header's.
\<close>

definition SDL_AUDIO_DEVICE_DEFAULT_PLAYBACK :: u32 where
  "SDL_AUDIO_DEVICE_DEFAULT_PLAYBACK = 0xFFFFFFFF"

definition SDL_AUDIO_DEVICE_DEFAULT_RECORDING :: u32 where
  "SDL_AUDIO_DEVICE_DEFAULT_RECORDING = 0xFFFFFFFE"

text \<open>
  The C library's \<^verbatim>\<open>strtol(s, &end, 10)\<close> on a 64-bit \<^verbatim>\<open>long\<close>: it skips white
  space, takes an optional sign and then the longest run of digits, and returns their
  value (clamped to the range of \<^verbatim>\<open>long\<close>) with \<^verbatim>\<open>end\<close> after the last digit. With no
  digit there, it returns 0 and \<^verbatim>\<open>end\<close> is \<open>s\<close> itself. The second component is the string
  \<^verbatim>\<open>end\<close> points to.
\<close>

definition isspace :: "char \<Rightarrow> bool" where
  "isspace c = (c \<in> set [CHR '' '', CHR 0x09, CHR 0x0A, CHR 0x0B, CHR 0x0C, CHR 0x0D])"

definition isdigit :: "char \<Rightarrow> bool" where
  "isdigit c = (c \<in> set ''0123456789'')"

definition digits_value :: "string \<Rightarrow> int" where
  "digits_value ds = foldl (\<lambda>acc c. 10 * acc + (int (of_char c) - 48)) 0 ds"

definition LONG_MAX :: int where
  "LONG_MAX = 2 ^ 63 - 1"

definition LONG_MIN :: int where
  "LONG_MIN = - (2 ^ 63)"

definition strtol :: "string \<Rightarrow> int \<times> string" where
  "strtol s =
     (let t = dropWhile isspace s;
          neg = (case t of [] \<Rightarrow> False | c # r \<Rightarrow> c = CHR ''-'');
          u = (case t of [] \<Rightarrow> t | c # r \<Rightarrow> if c = CHR ''-'' \<or> c = CHR ''+'' then r else t);
          ds = takeWhile isdigit u
      in if ds = [] then (0, s)
         else (max LONG_MIN (min LONG_MAX (if neg then - digits_value ds else digits_value ds)),
               dropWhile isdigit u))"

text \<open>\<^verbatim>\<open>strstr(haystack, needle) != NULL\<close>: the needle occurs in the haystack, byte for byte.\<close>

fun strstr :: "string \<Rightarrow> string \<Rightarrow> bool" where
  "strstr [] needle = (needle = [])"
| "strstr (c # cs) needle = (prefix needle (c # cs) \<or> strstr cs needle)"

text \<open>
  An enumerated device is its identifier and the name \<^verbatim>\<open>SDL_GetAudioDeviceName\<close> gives
  for it (\<open>None\<close> for \<^verbatim>\<open>NULL\<close>); the enumeration is \<open>None\<close> when
  \<^verbatim>\<open>SDL_GetAudioRecordingDevices\<close> returns \<^verbatim>\<open>NULL\<close>, and \<^verbatim>\<open>count\<close> is its length.
\<close>

type_synonym device = "u32 \<times> string option"

text \<open>The search loop, which leaves at the first device whose name contains the selector.\<close>

fun first_match :: "device list \<Rightarrow> string \<Rightarrow> u32 option" where
  "first_match [] selector = None"
| "first_match ((d, name) # rest) selector =
     (case name of
        None \<Rightarrow> first_match rest selector
      | Some n \<Rightarrow> if strstr n selector then Some d else first_match rest selector)"

definition pick_recording_device :: "device list option \<Rightarrow> string option \<Rightarrow> u32 \<times> message list" where
  "pick_recording_device devices selector =
     (let chosen = SDL_AUDIO_DEVICE_DEFAULT_RECORDING in
      case selector of
        None \<Rightarrow> (chosen, [])
      | Some sel \<Rightarrow>
          if sel = [] then (chosen, [])
          else
            let (idx, end) = strtol sel in
            if end = [] then
              (case devices of
                 None \<Rightarrow> (chosen, [IndexUnavailable idx])
               | Some ds \<Rightarrow>
                   if idx \<ge> 0 \<and> idx < int (length ds) then (fst (ds ! nat idx), [])
                   else (chosen, [IndexUnavailable idx]))
            else
              (case devices of
                 None \<Rightarrow> (chosen, [])
               | Some ds \<Rightarrow>
                   (case first_match ds sel of
                      Some d \<Rightarrow> (d, [])
                    | None \<Rightarrow> (chosen, [RecordingNotFound sel]))))"

definition pick_playback_device :: "device list option \<Rightarrow> int \<Rightarrow> u32 \<times> message list" where
  "pick_playback_device devices out_index =
     (let chosen = SDL_AUDIO_DEVICE_DEFAULT_PLAYBACK in
      if out_index \<ge> 0 then
        (case devices of
           None \<Rightarrow> (chosen, [SinkUnavailable out_index])
         | Some ds \<Rightarrow>
             if out_index < int (length ds) then (fst (ds ! nat out_index), [])
             else (chosen, [SinkUnavailable out_index]))
      else (chosen, []))"

text \<open>
  The resolution in the specification's words. A selector "parses entirely as a
  number" when it is optional white space, an optional sign and one or more digits, with
  nothing after them; a name "contains the selector" when the selector is a contiguous
  part of it (\<^const>\<open>sublist\<close>).
\<close>

definition unsigned_part :: "string \<Rightarrow> string" where
  "unsigned_part s =
     (case dropWhile isspace s of
        [] \<Rightarrow> []
      | c # r \<Rightarrow> if c = CHR ''-'' \<or> c = CHR ''+'' then r else c # r)"

definition parses_as_number :: "string \<Rightarrow> bool" where
  "parses_as_number s = (unsigned_part s \<noteq> [] \<and> list_all isdigit (unsigned_part s))"

definition number_of :: "string \<Rightarrow> int" where
  "number_of s =
     (let v = digits_value (unsigned_part s);
          v = (if hd (dropWhile isspace s) = CHR ''-'' then - v else v)
      in max LONG_MIN (min LONG_MAX v))"

definition name_contains :: "string \<Rightarrow> device \<Rightarrow> bool" where
  "name_contains selector d = (case snd d of None \<Rightarrow> False | Some n \<Rightarrow> sublist selector n)"

definition selection_spec :: "device list \<Rightarrow> string \<Rightarrow> u32 \<times> message list" where
  "selection_spec ds selector =
     (if parses_as_number selector then
        (let idx = number_of selector in
         if 0 \<le> idx \<and> idx < int (length ds) then (fst (ds ! nat idx), [])
         else (SDL_AUDIO_DEVICE_DEFAULT_RECORDING, [IndexUnavailable idx]))
      else
        (case find (name_contains selector) ds of
           Some d \<Rightarrow> (fst d, [])
         | None \<Rightarrow> (SDL_AUDIO_DEVICE_DEFAULT_RECORDING, [RecordingNotFound selector])))"

section \<open>LifecycleCoordinator: the shared stop flag\<close>

text \<open>
  The two variables every loop tests: \<^verbatim>\<open>running\<close>, a local of \<^verbatim>\<open>main\<close> that both
  workers reach through \<^verbatim>\<open>args->running\<close>, and the static \<^verbatim>\<open>g_stop\<close>. The
  specification's RunState is the loop condition \<^verbatim>\<open>*args->running && !g_stop\<close>.
\<close>

record shared =
  running :: bool
  g_stop :: bool

definition initial_shared :: shared where
  "initial_shared = \<lparr>running = True, g_stop = False\<rparr>"

definition RunState :: "shared \<Rightarrow> bool" where
  "RunState s = (running s \<and> \<not> g_stop s)"

text \<open>
  Every assignment to one of the two variables after their initialisation, by the place
  in the source that makes it: \<^verbatim>\<open>g_stop = 1\<close> in \<^verbatim>\<open>signalHandler\<close>; \<^verbatim>\<open>*args->running = 0\<close>
  in \<^verbatim>\<open>proc_video\<close> on a quit event, on an escape key and after its loop;
  \<^verbatim>\<open>running = 0\<close> in \<^verbatim>\<open>main\<close> when either thread cannot be created and after the video
  thread is joined. \<^verbatim>\<open>proc_audio\<close> makes none.
\<close>

datatype writer =
    SignalHandler
  | VideoQuitEvent
  | VideoEscapeKey
  | VideoLoopExit
  | MainVideoThreadFailed
  | MainAudioThreadFailed
  | MainVideoJoined

fun do_write :: "writer \<Rightarrow> shared \<Rightarrow> shared" where
  "do_write SignalHandler s = s\<lparr>g_stop := True\<rparr>"
| "do_write VideoQuitEvent s = s\<lparr>running := False\<rparr>"
| "do_write VideoEscapeKey s = s\<lparr>running := False\<rparr>"
| "do_write VideoLoopExit s = s\<lparr>running := False\<rparr>"
| "do_write MainVideoThreadFailed s = s\<lparr>running := False\<rparr>"
| "do_write MainAudioThreadFailed s = s\<lparr>running := False\<rparr>"
| "do_write MainVideoJoined s = s\<lparr>running := False\<rparr>"

text \<open>
  A worker sees the writes of the others (the other worker, \<^verbatim>\<open>main\<close>, the signal
  handler) only when it tests the flag. Each round of a loop therefore comes with the
  list of the writes that landed since the previous test; every write stores a
  constant, so their order within the list does not matter.
\<close>

definition observe :: "writer list \<Rightarrow> shared \<Rightarrow> shared" where
  "observe ws s = fold do_write ws s"

text \<open>The states an execution goes through, one per write, and the changes of a flag.\<close>

fun states :: "shared \<Rightarrow> writer list \<Rightarrow> shared list" where
  "states s [] = [s]"
| "states s (w # ws) = s # states (do_write w s) ws"

fun flips :: "bool list \<Rightarrow> nat" where
  "flips (a # b # bs) = (if a = b then 0 else 1) + flips (b # bs)"
| "flips bs = 0"

text \<open>
  How a run of a worker ends: it returns; or the process is killed (an access outside a
  buffer, a division by zero); or the description of the environment ends with the loop
  still running, which stands for a loop that has not returned yet.
\<close>

datatype crash = MemoryFault mem_error | DivisionByZero

datatype ('r, 's) outcome = Returned 'r | Crashed crash 's | OutOfFuel 's

text \<open>The state a run ended in, whichever way it ended.\<close>

definition final_state :: "('s, 's) outcome \<Rightarrow> 's" where
  "final_state out = (case out of Returned s \<Rightarrow> s | Crashed c s \<Rightarrow> s | OutOfFuel s \<Rightarrow> s)"

section \<open>AudioPassthroughWorker: \<^verbatim>\<open>proc_audio\<close>\<close>

record proc_audio_args_t =
  a_dev :: "string option"
  a_sample_rate :: int
  a_out :: int

text \<open>
  What the SDL calls of the startup phase answer: the two enumerations, the logical
  device \<^verbatim>\<open>SDL_OpenAudioDevice\<close> returns for a device (0 on failure), and whether
  each stream is created and bound.
\<close>

record audio_env =
  rec_devices :: "device list option"
  play_devices :: "device list option"
  open_rec :: "u32 \<Rightarrow> u32"
  open_out :: "u32 \<Rightarrow> u32"
  rec_stream_created :: bool
  rec_stream_bound :: bool
  out_stream_created :: bool
  out_stream_bound :: bool

text \<open>
  One round of the loop: the writes seen at its test, the answer of
  \<^verbatim>\<open>SDL_GetAudioStreamAvailable\<close>, the answer of \<^verbatim>\<open>SDL_GetAudioStreamData\<close> to a request
  of the given length, and whether \<^verbatim>\<open>SDL_PutAudioStreamData\<close> succeeds.
\<close>

record audio_round =
  a_async :: "writer list"
  avail :: int
  get_data :: "int \<Rightarrow> int"
  put_ok :: bool

record audio_state =
  au_shared :: shared
  au_stderr :: "message list"
  au_put :: "int list"

fun audio_loop :: "audio_state \<Rightarrow> audio_round list \<Rightarrow> (audio_state, audio_state) outcome" where
  "audio_loop st [] = OutOfFuel st"
| "audio_loop st (r # rs) =
     (let st = st\<lparr>au_shared := observe (a_async r) (au_shared st)\<rparr> in
      if \<not> RunState (au_shared st) then Returned st
      else if avail r \<le> 0 then audio_loop st rs
      else
        let len = (if avail r > 4096 then 4096 else avail r);
            got = get_data r len
        in if got < 0 then Returned (st\<lparr>au_stderr := au_stderr st @ [GetAudioStreamDataFailed]\<rparr>)
           else if got > 0 then
             (if \<not> put_ok r
              then Returned (st\<lparr>au_stderr := au_stderr st @ [PutAudioStreamDataFailed]\<rparr>)
              else audio_loop (st\<lparr>au_put := au_put st @ [got]\<rparr>) rs)
           else audio_loop st rs)"

text \<open>
  The worker. Its \<^verbatim>\<open>cleanup\<close> block only releases what was created and does not touch
  the return code, the flag or \<^verbatim>\<open>stderr\<close>; it is not modelled.
\<close>

definition proc_audio ::
  "proc_audio_args_t \<Rightarrow> audio_env \<Rightarrow> shared \<Rightarrow> audio_round list
     \<Rightarrow> (int \<times> audio_state, audio_state) outcome" where
  "proc_audio args env s rounds =
     (let rc = 1;
          (rec_id, m1) = pick_recording_device (rec_devices env) (a_dev args);
          (out_id, m2) = pick_playback_device (play_devices env) (a_out args);
          st = \<lparr>au_shared = s, au_stderr = m1 @ m2, au_put = []\<rparr>;
          rec_dev = open_rec env rec_id
      in if rec_dev = 0
         then Returned (rc, st\<lparr>au_stderr := au_stderr st @ [OpenRecordingFailed]\<rparr>)
         else
           let out_dev = open_out env out_id
           in if out_dev = 0
              then Returned (rc, st\<lparr>au_stderr := au_stderr st @ [OpenPlaybackFailed]\<rparr>)
              else if \<not> rec_stream_created env \<or> \<not> rec_stream_bound env
              then Returned (rc, st\<lparr>au_stderr := au_stderr st @ [BindRecStreamFailed]\<rparr>)
              else if \<not> out_stream_created env \<or> \<not> out_stream_bound env
              then Returned (rc, st\<lparr>au_stderr := au_stderr st @ [BindOutStreamFailed]\<rparr>)
              else
                (case audio_loop st rounds of
                   Returned st' \<Rightarrow> (let rc = 0 in Returned (rc, st'))
                 | Crashed c st' \<Rightarrow> Crashed c st'
                 | OutOfFuel st' \<Rightarrow> OutOfFuel st'))"

text \<open>
  The startup failures of the audio worker in the specification's words: opening one of
  the two devices, or creating and binding one of the two streams, fails.
\<close>

definition audio_startup_fails :: "proc_audio_args_t \<Rightarrow> audio_env \<Rightarrow> bool" where
  "audio_startup_fails args env =
     (open_rec env (fst (pick_recording_device (rec_devices env) (a_dev args))) = 0
      \<or> open_out env (fst (pick_playback_device (play_devices env) (a_out args))) = 0
      \<or> \<not> (rec_stream_created env \<and> rec_stream_bound env)
      \<or> \<not> (out_stream_created env \<and> out_stream_bound env))"

section \<open>CaptureWorker: \<^verbatim>\<open>proc_video\<close>\<close>

datatype ui_event = EventQuit | EventKeyDown bool | EventOther

datatype select_result = SelectReady | SelectTimeout | SelectInterrupted | SelectError

datatype dqbuf_result = Dequeued nat "u8 list" | DqWouldBlock | DqError

text \<open>
  What the worker does to the device and to the renderer, in order: the buffer ioctls
  with the slot they name, the conversion of a slot, and the SDL calls that upload and
  draw. \<open>EventKeyDown esc\<close> says whether the key is \<^verbatim>\<open>SDLK_ESCAPE\<close>; \<open>Dequeued i m\<close> is a
  successful \<^verbatim>\<open>VIDIOC_DQBUF\<close> that names slot \<open>i\<close>, whose mapped memory holds \<open>m\<close>.
\<close>

datatype action =
    DQBUF nat
  | Convert nat
  | UpdateTexture "u8 list"
  | RenderClear
  | RenderTexture SDL_FRect
  | RenderPresent
  | QBUF nat
  | STREAMON

record video_env =
  s_fmt_ok :: bool
  negotiated_width :: u32
  negotiated_height :: u32
  reqbufs_ok :: bool
  granted :: u32
  calloc_ok :: bool
  querybuf_ok :: "nat \<Rightarrow> bool"
  mmap_ok :: "nat \<Rightarrow> bool"
  qbuf_ok :: "nat \<Rightarrow> bool"
  streamon_ok :: bool
  window_ok :: bool
  renderer_ok :: bool
  texture_ok :: bool
  malloc_ok :: bool
  heap_byte :: "nat \<Rightarrow> u8"

record video_round =
  v_async :: "writer list"
  ui_events :: "ui_event list"
  select_r :: select_result
  dqbuf :: dqbuf_result
  output_size :: "int \<times> int"
  requeue_ok :: bool

record video_state =
  vi_shared :: shared
  vi_stderr :: "message list"
  vi_trace :: "action list"
  vi_rgb :: "u8 list"

fun poll_event :: "ui_event \<Rightarrow> shared \<Rightarrow> shared" where
  "poll_event EventQuit s = do_write VideoQuitEvent s"
| "poll_event (EventKeyDown esc) s = (if esc then do_write VideoEscapeKey s else s)"
| "poll_event EventOther s = s"

text \<open>The two startup loops over the granted slots; each stops at the first failure.\<close>

fun map_buffers :: "video_env \<Rightarrow> nat list \<Rightarrow> message option" where
  "map_buffers env [] = None"
| "map_buffers env (i # is) =
     (if \<not> querybuf_ok env i then Some QUERYBUF_Failed
      else if \<not> mmap_ok env i then Some MmapFailed
      else map_buffers env is)"

fun queue_buffers :: "video_env \<Rightarrow> nat list \<Rightarrow> action list \<Rightarrow> message option \<times> action list" where
  "queue_buffers env [] tr = (None, tr)"
| "queue_buffers env (i # is) tr =
     (if \<not> qbuf_ok env i then (Some QBUF_Failed, tr)
      else queue_buffers env is (tr @ [QBUF i]))"

text \<open>One round of the capture loop is one test of the flag and, if it passes, the body.\<close>

fun video_loop ::
  "u32 \<Rightarrow> u32 \<Rightarrow> video_state \<Rightarrow> video_round list \<Rightarrow> (video_state, video_state) outcome" where
  "video_loop width height st [] = OutOfFuel st"
| "video_loop width height st (r # rs) =
     (let st = st\<lparr>vi_shared := observe (v_async r) (vi_shared st)\<rparr> in
      if \<not> RunState (vi_shared st) then Returned st
      else
        let st = st\<lparr>vi_shared := fold poll_event (ui_events r) (vi_shared st)\<rparr> in
        case select_r r of
          SelectInterrupted \<Rightarrow> video_loop width height st rs
        | SelectError \<Rightarrow> Returned (st\<lparr>vi_stderr := vi_stderr st @ [SelectFailed]\<rparr>)
        | SelectTimeout \<Rightarrow> video_loop width height st rs
        | SelectReady \<Rightarrow>
            (case dqbuf r of
               DqWouldBlock \<Rightarrow> video_loop width height st rs
             | DqError \<Rightarrow> Returned (st\<lparr>vi_stderr := vi_stderr st @ [DQBUF_Failed]\<rparr>)
             | Dequeued idx frame \<Rightarrow>
                 (let st = st\<lparr>vi_trace := vi_trace st @ [DQBUF idx]\<rparr> in
                  case convert_frame frame (vi_rgb st) width height of
                    Inl e \<Rightarrow> Crashed (MemoryFault e) st
                  | Inr b \<Rightarrow>
                      (let st = st\<lparr>vi_rgb := bytes b,
                                    vi_trace := vi_trace st @ [Convert idx, UpdateTexture (bytes b)]\<rparr>
                       in case integer_fit_rect (sint width) (sint height)
                                 (fst (output_size r)) (snd (output_size r)) of
                            None \<Rightarrow> Crashed DivisionByZero st
                          | Some dst \<Rightarrow>
                              (let st = st\<lparr>vi_trace := vi_trace st @
                                            [RenderClear, RenderTexture dst, RenderPresent, QBUF idx]\<rparr>
                               in if \<not> requeue_ok r
                                  then Returned (st\<lparr>vi_stderr := vi_stderr st @ [RequeueFailed]\<rparr>)
                                  else video_loop width height st rs)))))"

definition proc_video ::
  "video_env \<Rightarrow> shared \<Rightarrow> video_round list \<Rightarrow> (int \<times> video_state, video_state) outcome" where
  "proc_video env s rounds =
     (let st = \<lparr>vi_shared = s, vi_stderr = [], vi_trace = [], vi_rgb = []\<rparr>;
          slots = [0 ..< unat (granted env)]
      in if \<not> s_fmt_ok env then Returned (1, st\<lparr>vi_stderr := [S_FMT_Failed]\<rparr>)
         else if \<not> reqbufs_ok env \<or> granted env < 2
         then Returned (1, st\<lparr>vi_stderr := [REQBUFS_Failed]\<rparr>)
         else if \<not> calloc_ok env then Returned (1, st\<lparr>vi_stderr := [CallocFailed]\<rparr>)
         else
           (case map_buffers env slots of
              Some m \<Rightarrow> Returned (1, st\<lparr>vi_stderr := [m]\<rparr>)
            | None \<Rightarrow>
                (case queue_buffers env slots [] of
                   (Some m, tr) \<Rightarrow> Returned (1, st\<lparr>vi_stderr := [m], vi_trace := tr\<rparr>)
                 | (None, tr) \<Rightarrow>
                     if \<not> streamon_ok env
                     then Returned (1, st\<lparr>vi_stderr := [STREAMON_Failed], vi_trace := tr\<rparr>)
                     else
                       let st = st\<lparr>vi_trace := tr @ [STREAMON]\<rparr>
                       in if \<not> window_ok env
                          then Returned (1, st\<lparr>vi_stderr := [CreateWindowFailed]\<rparr>)
                          else if \<not> renderer_ok env
                          then Returned (1, st\<lparr>vi_stderr := [CreateRendererFailed]\<rparr>)
                          else if \<not> texture_ok env
                          then Returned (1, st\<lparr>vi_stderr := [CreateTextureFailed]\<rparr>)
                          else
                            let width = negotiated_width env;
                                height = negotiated_height env;
                                sz = rgb_size width height
                            in if \<not> malloc_ok env
                               then Returned (1, st\<lparr>vi_stderr := [MallocFailed]\<rparr>)
                               else
                                 (case video_loop width height
                                         (st\<lparr>vi_rgb := map (heap_byte env) [0 ..< sz]\<rparr>) rounds of
                                    Returned st' \<Rightarrow>
                                      Returned (0, st'\<lparr>vi_shared := do_write VideoLoopExit (vi_shared st')\<rparr>)
                                  | Crashed c st' \<Rightarrow> Crashed c st'
                                  | OutOfFuel st' \<Rightarrow> OutOfFuel st'))))"

text \<open>
  The order the specification asks for, on the actions of the loop: whenever the action
  at position \<open>n\<close> hands slot \<open>k\<close> back to the kernel, the six actions before it are the
  dequeue of \<open>k\<close>, its conversion, the upload, and the clear, draw and present.
\<close>

definition requeue_after_present :: "action list \<Rightarrow> bool" where
  "requeue_after_present tr =
     (\<forall>n < length tr. \<forall>k. tr ! n = QBUF k \<longrightarrow>
        6 \<le> n \<and> tr ! (n - 6) = DQBUF k \<and> tr ! (n - 5) = Convert k
        \<and> (\<exists>m. tr ! (n - 4) = UpdateTexture m) \<and> tr ! (n - 3) = RenderClear
        \<and> (\<exists>d. tr ! (n - 2) = RenderTexture d) \<and> tr ! (n - 1) = RenderPresent)"

section \<open>The program: \<^verbatim>\<open>main\<close>\<close>

text \<open>
  \<^verbatim>\<open>main\<close> opens the device, initialises SDL, starts the two threads and joins them.
  Both \<^verbatim>\<open>pthread_join\<close> calls pass \<^verbatim>\<open>NULL\<close> for the thread's result, so the value a
  worker returns is dropped. The two workers run side by side; each starts from the
  initial flag and sees the writes of the other, of \<^verbatim>\<open>main\<close> and of the signal handler
  through its rounds. The process ends with an exit code, or is killed, or has not ended
  yet. Parsing \<^verbatim>\<open>argv\<close> and releasing the resources at the end are not modelled.
\<close>

record main_env =
  open_ok :: bool
  sdl_init_ok :: bool
  video_thread_ok :: bool
  audio_thread_ok :: bool
  m_video :: video_env
  m_video_rounds :: "video_round list"
  m_audio_args :: proc_audio_args_t
  m_audio :: audio_env
  m_audio_rounds :: "audio_round list"

datatype exit_status = Exit int | Killed crash | NoExit

definition main :: "main_env \<Rightarrow> exit_status" where
  "main env =
     (if \<not> open_ok env then Exit 1
      else if \<not> sdl_init_ok env then Exit 1
      else
        let s = initial_shared
        in if \<not> video_thread_ok env then Exit 1
           else if \<not> audio_thread_ok env then
             (case proc_video (m_video env) s (m_video_rounds env) of
                Returned (rv, vst) \<Rightarrow> Exit 1
              | Crashed c vst \<Rightarrow> Killed c
              | OutOfFuel vst \<Rightarrow> NoExit)
           else
             (case proc_video (m_video env) s (m_video_rounds env) of
                Crashed c vst \<Rightarrow> Killed c
              | OutOfFuel vst \<Rightarrow> NoExit
              | Returned (rv, vst) \<Rightarrow>
                  (case proc_audio (m_audio_args env) (m_audio env) s (m_audio_rounds env) of
                     Returned (ra, ast) \<Rightarrow> Exit 0
                   | Crashed c ast \<Rightarrow> Killed c
                   | OutOfFuel ast \<Rightarrow> NoExit)))"

text \<open>
  The environments of the concrete runs below: every call of the startup phases
  succeeds, the device grants four slots for a 2 by 1 frame, and no device is enumerated.
\<close>

definition good_video_env :: video_env where
  "good_video_env =
     \<lparr>s_fmt_ok = True, negotiated_width = 2, negotiated_height = 1, reqbufs_ok = True,
      granted = 4, calloc_ok = True, querybuf_ok = (\<lambda>i. True), mmap_ok = (\<lambda>i. True),
      qbuf_ok = (\<lambda>i. True), streamon_ok = True, window_ok = True, renderer_ok = True,
      texture_ok = True, malloc_ok = True, heap_byte = (\<lambda>i. 0)\<rparr>"

definition good_audio_env :: audio_env where
  "good_audio_env =
     \<lparr>rec_devices = Some [], play_devices = Some [], open_rec = (\<lambda>d. 1), open_out = (\<lambda>d. 2),
      rec_stream_created = True, rec_stream_bound = True,
      out_stream_created = True, out_stream_bound = True\<rparr>"

definition default_audio_args :: proc_audio_args_t where
  "default_audio_args =
     \<lparr>a_dev = Some ''USB3. 0 capture Stereo analogico'', a_sample_rate = 44100, a_out = - 1\<rparr>"

section \<open>The converter, step by step\<close>

declare yuyv_loop.simps [simp del]

lemma uint_clamp_u8: "uint (clamp_u8 x) = spec_clamp x"
  by (simp add: clamp_u8_def spec_clamp_def uint_word_of_int take_bit_int_eq_self)

lemma clamp_u8_spec: "clamp_u8 x = word_of_int (spec_clamp x)"
  by (simp add: clamp_u8_def spec_clamp_def)

lemma uint_word_of_spec_clamp: "uint (word_of_int (spec_clamp x) :: u8) = spec_clamp x"
  using uint_clamp_u8 [of x] by (simp add: clamp_u8_spec)

lemma uint_px:
  "uint (px yuyv p 0) = spec_R (luma yuyv p) (chroma_u yuyv p) (chroma_v yuyv p)"
  "uint (px yuyv p 1) = spec_G (luma yuyv p) (chroma_u yuyv p) (chroma_v yuyv p)"
  "uint (px yuyv p 2) = spec_B (luma yuyv p) (chroma_u yuyv p) (chroma_v yuyv p)"
  by (simp_all add: px_def spec_R_def spec_G_def spec_B_def uint_word_of_spec_clamp)

text \<open>One round of the loop, on macropixel \<open>k\<close>: six stores, at offsets \<open>6k .. 6k+5\<close>.\<close>

lemma yuyv_body_ok:
  assumes "4 * k + 3 < length yuyv" and "6 * k + 5 < length (bytes b)"
  shows "yuyv_body yuyv (2 * k) (4 * k) b =
     Inr (b\<lparr>bytes := (bytes b)[6 * k := px yuyv (2 * k) 0, 6 * k + 1 := px yuyv (2 * k) 1,
                6 * k + 2 := px yuyv (2 * k) 2, 6 * k + 3 := px yuyv (2 * k + 1) 0,
                6 * k + 4 := px yuyv (2 * k + 1) 1, 6 * k + 5 := px yuyv (2 * k + 1) 2],
           written := written b @ [6 * k, 6 * k + 1, 6 * k + 2, 6 * k + 3, 6 * k + 4, 6 * k + 5]\<rparr>)"
  using assms
  by (simp add: yuyv_body_def ebind_def load_u8_def store_u8_def Let_def px_def clamp_u8_spec
      spec_R_def spec_G_def spec_B_def luma_def chroma_u_def chroma_v_def drop_bit_eq_div
      algebra_simps)

lemma upt_six:
  assumes "a + 6 \<le> b"
  shows "[a ..< b] = [a, a + 1, a + 2, a + 3, a + 4, a + 5] @ [a + 6 ..< b]"
proof -
  have "[a ..< b] = [a ..< a + 6] @ [a + 6 ..< b]"
    using assms upt_add_eq_append [of a "a + 6" "b - (a + 6)"] by simp
  moreover have "[a ..< a + 6] = [a, a + 1, a + 2, a + 3, a + 4, a + 5]"
    by (simp add: upt_rec)
  ultimately show ?thesis by simp
qed

text \<open>
  The loop from macropixel \<open>k\<close> on, when it runs \<open>n\<close> rounds in all and both buffers
  hold \<open>n\<close> macropixels: it returns, it writes the offsets \<open>6k ..< 6n\<close> in order, it
  leaves every other byte alone, and every pixel it reaches gets the bytes of the
  transform.
\<close>

lemma yuyv_loop_inv:
  assumes "\<And>m. (int (2 * m) < npix) = (m < n)"
    and "4 * n \<le> length yuyv" and "6 * n \<le> length (bytes b)" and "k \<le> n"
  shows "\<exists>b'. yuyv_loop yuyv npix (2 * k) (4 * k) b = Inr b'
           \<and> length (bytes b') = length (bytes b)
           \<and> written b' = written b @ [6 * k ..< 6 * n]
           \<and> (\<forall>q. q < 6 * k \<or> 6 * n \<le> q \<longrightarrow> bytes b' ! q = bytes b ! q)
           \<and> (\<forall>p c. 2 * k \<le> p \<and> p < 2 * n \<and> c < 3 \<longrightarrow> bytes b' ! (3 * p + c) = px yuyv p c)"
  using assms(3,4)
proof (induction "n - k" arbitrary: k b)
  case 0
  then have "k = n" by simp
  then have "\<not> int (2 * k) < npix" using assms(1) by simp
  then have "yuyv_loop yuyv npix (2 * k) (4 * k) b = Inr b"
    by (subst yuyv_loop.simps) simp
  then show ?case using \<open>k = n\<close> by auto
next
  case (Suc d)
  then have kn: "k < n" by simp
  then have cond: "int (2 * k) < npix" using assms(1) by simp
  let ?bs = "(bytes b)[6 * k := px yuyv (2 * k) 0, 6 * k + 1 := px yuyv (2 * k) 1,
                6 * k + 2 := px yuyv (2 * k) 2, 6 * k + 3 := px yuyv (2 * k + 1) 0,
                6 * k + 4 := px yuyv (2 * k + 1) 1, 6 * k + 5 := px yuyv (2 * k + 1) 2]"
  let ?b1 = "b\<lparr>bytes := ?bs,
           written := written b @ [6 * k, 6 * k + 1, 6 * k + 2, 6 * k + 3, 6 * k + 4, 6 * k + 5]\<rparr>"
  have lenk: "6 * k + 5 < length (bytes b)" using kn Suc.prems by auto
  have body: "yuyv_body yuyv (2 * k) (4 * k) b = Inr ?b1"
    using kn assms(2) lenk by (intro yuyv_body_ok) auto
  have step: "yuyv_loop yuyv npix (2 * k) (4 * k) b
                = yuyv_loop yuyv npix (2 * Suc k) (4 * Suc k) ?b1"
    using cond body by (subst yuyv_loop.simps) (simp add: add.commute)
  have d: "d = n - Suc k" using Suc.hyps(2) by simp
  have l1: "6 * n \<le> length (bytes ?b1)" using Suc.prems(1) by simp
  have k1: "Suc k \<le> n" using kn by simp
  note ih = Suc.hyps(1)[OF d l1 k1]
  then obtain b' where r: "yuyv_loop yuyv npix (2 * Suc k) (4 * Suc k) ?b1 = Inr b'"
    and l: "length (bytes b') = length (bytes ?b1)"
    and w: "written b' = written ?b1 @ [6 * Suc k ..< 6 * n]"
    and o: "\<forall>q. q < 6 * Suc k \<or> 6 * n \<le> q \<longrightarrow> bytes b' ! q = bytes ?b1 ! q"
    and v: "\<forall>p c. 2 * Suc k \<le> p \<and> p < 2 * n \<and> c < 3 \<longrightarrow> bytes b' ! (3 * p + c) = px yuyv p c"
    by blast
  have upt: "[6 * k ..< 6 * n]
      = [6 * k, 6 * k + 1, 6 * k + 2, 6 * k + 3, 6 * k + 4, 6 * k + 5] @ [6 * Suc k ..< 6 * n]"
    using kn upt_six [of "6 * k" "6 * n"] by (simp add: add.commute)
  have w': "written b' = written b @ [6 * k ..< 6 * n]"
    using w upt by simp
  have o': "\<forall>q. q < 6 * k \<or> 6 * n \<le> q \<longrightarrow> bytes b' ! q = bytes b ! q"
  proof (intro allI impI)
    fix q assume q: "q < 6 * k \<or> 6 * n \<le> q"
    then have "q < 6 * Suc k \<or> 6 * n \<le> q" by auto
    with o have "bytes b' ! q = bytes ?b1 ! q" by blast
    then have "bytes b' ! q = ?bs ! q" by simp
    moreover have "?bs ! q = bytes b ! q" using q kn by auto
    ultimately show "bytes b' ! q = bytes b ! q" by simp
  qed
  have v': "\<forall>p c. 2 * k \<le> p \<and> p < 2 * n \<and> c < 3 \<longrightarrow> bytes b' ! (3 * p + c) = px yuyv p c"
  proof (intro allI impI)
    fix p c :: nat assume pc: "2 * k \<le> p \<and> p < 2 * n \<and> c < 3"
    show "bytes b' ! (3 * p + c) = px yuyv p c"
    proof (cases "2 * Suc k \<le> p")
      case True
      with pc have "2 * Suc k \<le> p \<and> p < 2 * n \<and> c < 3" by simp
      with v show ?thesis by blast
    next
      case False
      then have p: "p = 2 * k \<or> p = 2 * k + 1" using pc by auto
      have c: "c = 0 \<or> c = 1 \<or> c = 2" using pc by auto
      have "3 * p + c < 6 * Suc k" using p c by auto
      with o have "bytes b' ! (3 * p + c) = bytes ?b1 ! (3 * p + c)" by blast
      then have "bytes b' ! (3 * p + c) = ?bs ! (3 * p + c)" by simp
      also have "\<dots> = px yuyv p c" using p c lenk by (auto simp: add.commute)
      finally show ?thesis .
    qed
  qed
  show ?case using step r l w' o' v' by simp
qed

lemma macropixels_rounds: "(int (2 * m) < w * h) = (m < macropixels w h)"
  unfolding macropixels_def by linarith

text \<open>The whole call, on buffers that hold the macropixels the loop takes.\<close>

lemma yuyv_to_rgb24_result:
  assumes "4 * macropixels w h \<le> length yuyv" and "6 * macropixels w h \<le> length rgb"
  shows "\<exists>b. yuyv_to_rgb24 yuyv rgb w h = Inr b
           \<and> length (bytes b) = length rgb
           \<and> written b = [0 ..< 6 * macropixels w h]
           \<and> (\<forall>q. 6 * macropixels w h \<le> q \<longrightarrow> bytes b ! q = rgb ! q)
           \<and> (\<forall>p c. p < 2 * macropixels w h \<and> c < 3 \<longrightarrow> bytes b ! (3 * p + c) = px yuyv p c)"
proof -
  let ?b0 = "\<lparr>bytes = rgb, written = []\<rparr>"
  have "6 * macropixels w h \<le> length (bytes ?b0)" using assms(2) by simp
  from yuyv_loop_inv [of "w * h" "macropixels w h" yuyv ?b0 0, OF macropixels_rounds assms(1) this]
  show ?thesis by (simp add: yuyv_to_rgb24_def)
qed

text \<open>A uniform frame at the neutral point: every byte the transform produces is 130.\<close>

lemma px_neutral:
  assumes "luma yuyv p = 128" "chroma_u yuyv p = 128" "chroma_v yuyv p = 128"
  shows "px yuyv p c = 130"
  using assms by (simp add: px_def spec_R_def spec_G_def spec_B_def spec_clamp_def)

text \<open>
  The dimensions as the converter receives them: when the frame has fewer than \<open>2^31\<close>
  output bytes, reading the unsigned dimensions as \<^verbatim>\<open>int\<close> changes nothing.
\<close>

lemma sint_small:
  fixes x :: u32
  assumes "unat x < 2 ^ 31"
  shows "sint x = int (unat x)"
proof -
  have u: "uint x < 2 ^ 31"
    using assms by (metis of_nat_less_iff of_nat_numeral of_nat_power uint_nat)
  have "sint x = signed_take_bit 31 (uint x)" by (simp only: sint_uint) simp
  also have "\<dots> = uint x"
  proof (rule signed_take_bit_int_eq_self)
    have "- (2 ^ 31) \<le> (0::int)" by simp
    also have "0 \<le> uint x" by simp
    finally show "- (2 ^ 31) \<le> uint x" .
    show "uint x < 2 ^ 31" by (rule u)
  qed
  finally show ?thesis by simp
qed

lemma sint_dims:
  fixes width height :: u32
  assumes "unat width * unat height * 3 < 2 ^ 31"
  shows "sint width * sint height = int (unat width * unat height)"
proof (cases "unat width = 0 \<or> unat height = 0")
  case True
  then have "width = 0 \<or> height = 0" by (simp add: unat_eq_0)
  then show ?thesis by auto
next
  case False
  then have p: "0 < unat width" "0 < unat height" by simp_all
  have "unat width \<le> unat width * unat height" using p by simp
  with assms have w: "unat width < 2 ^ 31" by linarith
  have "unat height \<le> unat width * unat height" using p by simp
  with assms have h: "unat height < 2 ^ 31" by linarith
  show ?thesis using sint_small [OF w] sint_small [OF h] by simp
qed

lemma macropixels_even:
  assumes "even N" and "w * h = int N"
  shows "macropixels w h = N div 2"
  using assms unfolding macropixels_def by simp

section \<open>The fit rectangle, step by step\<close>

lemma dropped_bits_small: "a < 2 ^ 24 \<Longrightarrow> dropped_bits a = 0"
  by simp

declare dropped_bits.simps [simp del]

lemma f32_of_int_exact:
  assumes "\<bar>n\<bar> \<le> 2 ^ 24"
  shows "f32_of_int n = n"
proof (cases "\<bar>n\<bar> < 2 ^ 24")
  case True
  then have "nat \<bar>n\<bar> < 2 ^ 24" by simp
  then have "dropped_bits (nat \<bar>n\<bar>) = 0" by (rule dropped_bits_small)
  then have "f32_of_int n = sgn n * \<bar>n\<bar>" by (simp add: f32_of_int_def Let_def)
  then show ?thesis by (simp add: mult_sgn_abs)
next
  case False
  with assms have a: "\<bar>n\<bar> = 2 ^ 24" by simp
  then have n: "nat \<bar>n\<bar> = 2 ^ 24" by simp
  have "dropped_bits (2 ^ 24) = Suc (dropped_bits (2 ^ 23))"
    by (subst dropped_bits.simps) simp
  also have "dropped_bits (2 ^ 23) = 0" by (rule dropped_bits_small) simp
  finally have e: "dropped_bits (2 ^ 24) = 1" by simp
  have "f32_of_int n = sgn n * 2 ^ 24"
    unfolding f32_of_int_def Let_def n e by simp
  also have "\<dots> = sgn n * \<bar>n\<bar>" using a by simp
  finally show ?thesis by (simp add: mult_sgn_abs)
qed

lemma c_div_pos: "0 < a \<Longrightarrow> 0 < b \<Longrightarrow> c_div a b = a div b"
  by (simp add: c_div_def)

lemma fit_scale_spec_eq:
  assumes "0 < sw" "0 < sh"
  shows "fit_scale_spec sw sh dw dh = max 1 (min (dw div sw) (dh div sh))"
proof -
  have "\<lfloor>min (rat_of_int dw / rat_of_int sw) (rat_of_int dh / rat_of_int sh)\<rfloor>
        = min \<lfloor>rat_of_int dw / rat_of_int sw\<rfloor> \<lfloor>rat_of_int dh / rat_of_int sh\<rfloor>"
    by (simp add: min_def floor_mono) (meson floor_mono le_cases order.trans order_antisym)
  then show ?thesis
    by (simp add: fit_scale_spec_def floor_divide_of_int_eq)
qed

lemma scaled_le:
  fixes sw dw s :: int
  assumes "0 < sw" "0 < dw" "s = 1 \<or> (1 \<le> s \<and> s \<le> dw div sw)"
  shows "0 < sw * s \<and> sw * s \<le> max sw dw"
proof -
  from assms(3) show ?thesis
  proof
    assume "s = 1" then show ?thesis using assms by simp
  next
    assume s: "1 \<le> s \<and> s \<le> dw div sw"
    then have "sw * s \<le> sw * (dw div sw)" using assms(1) by (simp add: mult_left_mono)
    also have "\<dots> \<le> dw" using assms(1) mult_div_mod_eq [of sw dw] pos_mod_sign [of sw dw] by linarith
    finally have "sw * s \<le> dw" .
    moreover have "0 < sw * s" using s assms(1) by simp
    ultimately show ?thesis by simp
  qed
qed

section \<open>FrameConverter: the claims\<close>

text \<open>
  Claim C3. For every frame, every width and height and every 4-byte macropixel (two luma
  samples and one shared chroma pair), the conversion computes each output pixel by
  subtracting 16 from the luma sample and 128 from each chroma component, then
  \<open>R = (298 Y' + 409 V' + 128) >> 8\<close>, \<open>G = (298 Y' - 100 U' - 208 V' + 128) >> 8\<close>,
  \<open>B = (298 Y' + 516 U' + 128) >> 8\<close>, each channel clamped to \<open>[0,255]\<close>.

  The hypotheses are the precondition of the C function: the two buffers hold the
  macropixels the loop takes, and the frame is in the range of \<^verbatim>\<open>int\<close>. The
  conclusion is that the call returns and that the three bytes of every pixel of every
  macropixel are \<^const>\<open>spec_R\<close>, \<^const>\<open>spec_G\<close> and \<^const>\<open>spec_B\<close> of its samples.
\<close>

theorem yuyv_to_rgb24_transform:
  assumes "frame_in_int_range w h"
    and "4 * macropixels w h \<le> length yuyv"
    and "6 * macropixels w h \<le> length rgb"
  shows "\<exists>b. yuyv_to_rgb24 yuyv rgb w h = Inr b \<and>
           (\<forall>p < 2 * macropixels w h.
              uint (bytes b ! (3 * p)) = spec_R (luma yuyv p) (chroma_u yuyv p) (chroma_v yuyv p) \<and>
              uint (bytes b ! (3 * p + 1)) = spec_G (luma yuyv p) (chroma_u yuyv p) (chroma_v yuyv p) \<and>
              uint (bytes b ! (3 * p + 2)) = spec_B (luma yuyv p) (chroma_u yuyv p) (chroma_v yuyv p))"
proof -
  from yuyv_to_rgb24_result [OF assms(2,3)]
  obtain b where r: "yuyv_to_rgb24 yuyv rgb w h = Inr b"
    and v: "\<forall>p c. p < 2 * macropixels w h \<and> c < 3 \<longrightarrow> bytes b ! (3 * p + c) = px yuyv p c"
    by blast
  have "uint (bytes b ! (3 * p)) = spec_R (luma yuyv p) (chroma_u yuyv p) (chroma_v yuyv p) \<and>
        uint (bytes b ! (3 * p + 1)) = spec_G (luma yuyv p) (chroma_u yuyv p) (chroma_v yuyv p) \<and>
        uint (bytes b ! (3 * p + 2)) = spec_B (luma yuyv p) (chroma_u yuyv p) (chroma_v yuyv p)"
    if p: "p < 2 * macropixels w h" for p
  proof -
    have "bytes b ! (3 * p + 0) = px yuyv p 0" "bytes b ! (3 * p + 1) = px yuyv p 1"
      "bytes b ! (3 * p + 2) = px yuyv p 2"
      using v [rule_format, of p 0] v [rule_format, of p 1] v [rule_format, of p 2] p by simp_all
    then show ?thesis by (simp add: uint_px del: One_nat_def)
  qed
  with r show ?thesis by blast
qed

text \<open>The theorem at a 2 by 1 frame with samples \<open>Y0 = 255, U = 255, Y1 = 0, V = 0\<close>.\<close>

theorem yuyv_to_rgb24_transform_witness:
  "frame_in_int_range 2 1 \<and> 4 * macropixels 2 1 \<le> length [255, 255, 0, 0 :: u8]
   \<and> (\<exists>b. yuyv_to_rgb24 [255, 255, 0, 0] [0, 0, 0, 0, 0, 0] 2 1 = Inr b
          \<and> uint (bytes b ! 0) = spec_R 255 255 0 \<and> spec_R 255 255 0 = 74
          \<and> uint (bytes b ! 1) = spec_G 255 255 0 \<and> spec_G 255 255 0 = 255
          \<and> uint (bytes b ! 2) = spec_B 255 255 0 \<and> spec_B 255 255 0 = 255)"
proof -
  have h1: "frame_in_int_range 2 1" by (simp add: frame_in_int_range_def)
  have h2: "4 * macropixels 2 1 \<le> length [255, 255, 0, 0 :: u8]"
    by (simp add: macropixels_def)
  have h3: "6 * macropixels 2 1 \<le> length [0, 0, 0, 0, 0, 0 :: u8]"
    by (simp add: macropixels_def)
  from yuyv_to_rgb24_transform [OF h1 h2 h3]
  obtain b where r: "yuyv_to_rgb24 [255, 255, 0, 0] [0, 0, 0, 0, 0, 0] 2 1 = Inr b"
    and v: "\<forall>p < 2 * macropixels 2 1.
      uint (bytes b ! (3 * p)) = spec_R (luma [255, 255, 0, 0] p) (chroma_u [255, 255, 0, 0] p) (chroma_v [255, 255, 0, 0] p) \<and>
      uint (bytes b ! (3 * p + 1)) = spec_G (luma [255, 255, 0, 0] p) (chroma_u [255, 255, 0, 0] p) (chroma_v [255, 255, 0, 0] p) \<and>
      uint (bytes b ! (3 * p + 2)) = spec_B (luma [255, 255, 0, 0] p) (chroma_u [255, 255, 0, 0] p) (chroma_v [255, 255, 0, 0] p)"
    by blast
  have pos: "(0::nat) < 2 * macropixels 2 1" by (simp add: macropixels_def)
  have s: "luma [255, 255, 0, 0] 0 = 255" "chroma_u [255, 255, 0, 0] 0 = 255"
    "chroma_v [255, 255, 0, 0] 0 = 0"
    by (simp_all add: luma_def chroma_u_def chroma_v_def)
  have i: "3 * 0 = (0::nat)" "0 + 1 = (1::nat)" "0 + 2 = (2::nat)" by simp_all
  from v [rule_format, OF pos]
  have "uint (bytes b ! 0) = spec_R 255 255 0" "uint (bytes b ! 1) = spec_G 255 255 0"
    "uint (bytes b ! 2) = spec_B 255 255 0"
    unfolding s i by blast+
  moreover have "spec_R 255 255 0 = 74" "spec_G 255 255 0 = 255" "spec_B 255 255 0 = 255"
    by (simp_all add: spec_R_def spec_G_def spec_B_def spec_clamp_def)
  ultimately show ?thesis using h1 h2 r by simp
qed

text \<open>
  Claim C4, as stated: a uniform frame with every luma and chroma sample 128 converts to
  pixels whose channels all lie in \<open>[127,129]\<close>. It fails on the 2 by 1 frame: the
  transform stretches luma from \<open>16..235\<close> to \<open>0..255\<close>, so
  \<open>(298 * (128 - 16) + 128) >> 8 = 130\<close>.
\<close>

theorem neutral_point_counterexample:
  "yuyv_to_rgb24 [128, 128, 128, 128] [0, 0, 0, 0, 0, 0] 2 1
     = Inr \<lparr>bytes = [130, 130, 130, 130, 130, 130], written = [0, 1, 2, 3, 4, 5]\<rparr>
   \<and> \<not> neutral_within_one (yuyv_to_rgb24 [128, 128, 128, 128] [0, 0, 0, 0, 0, 0] 2 1)"
proof -
  have "yuyv_to_rgb24 [128, 128, 128, 128] [0, 0, 0, 0, 0, 0] 2 1
     = Inr \<lparr>bytes = [130, 130, 130, 130, 130, 130], written = [0, 1, 2, 3, 4, 5]\<rparr>"
    by (simp add: yuyv_to_rgb24_def yuyv_loop.simps yuyv_body_def ebind_def load_u8_def
        store_u8_def Let_def clamp_u8_def drop_bit_eq_div)
  then show ?thesis by (simp add: neutral_within_one_def within_one_of_128_def)
qed

text \<open>
  Claim C4, amended: for every width and height, converting a uniform frame in which every
  luma sample and every chroma component is 128 produces an output in which every
  channel of every pixel is 130 (within 2 of 128, not within 1).
\<close>

theorem neutral_point_130:
  assumes "frame_in_int_range w h"
    and "4 * macropixels w h \<le> length yuyv"
    and "6 * macropixels w h \<le> length rgb"
    and "\<forall>k < 4 * macropixels w h. yuyv ! k = 128"
  shows "\<exists>b. yuyv_to_rgb24 yuyv rgb w h = Inr b \<and> (\<forall>q < 6 * macropixels w h. bytes b ! q = 130)"
proof -
  let ?n = "macropixels w h"
  from yuyv_to_rgb24_result [OF assms(2,3)]
  obtain b where r: "yuyv_to_rgb24 yuyv rgb w h = Inr b"
    and v: "\<forall>p c. p < 2 * ?n \<and> c < 3 \<longrightarrow> bytes b ! (3 * p + c) = px yuyv p c"
    by blast
  have "bytes b ! q = 130" if q: "q < 6 * ?n" for q
  proof -
    define p where "p = q div 3"
    define c where "c = q mod 3"
    have pc: "p < 2 * ?n \<and> c < 3" and qq: "3 * p + c = q"
      using q by (auto simp: p_def c_def)
    have "p div 2 < ?n" using pc by linarith
    then have k: "2 * p < 4 * ?n" "4 * (p div 2) + 1 < 4 * ?n" "4 * (p div 2) + 3 < 4 * ?n"
      using pc by linarith+
    have "luma yuyv p = 128" "chroma_u yuyv p = 128" "chroma_v yuyv p = 128"
      using assms(4) [rule_format, OF k(1)] assms(4) [rule_format, OF k(2)]
        assms(4) [rule_format, OF k(3)]
      by (simp_all add: luma_def chroma_u_def chroma_v_def)
    then have "px yuyv p c = 130" by (rule px_neutral)
    with v [rule_format, OF pc] qq show ?thesis by simp
  qed
  with r show ?thesis by blast
qed

text \<open>The theorem at the 2 by 1 uniform frame.\<close>

theorem neutral_point_130_witness:
  "frame_in_int_range 2 1
   \<and> (\<exists>b. yuyv_to_rgb24 [128, 128, 128, 128] [0, 0, 0, 0, 0, 0] 2 1 = Inr b
          \<and> bytes b ! 0 = 130 \<and> bytes b ! 1 = 130 \<and> bytes b ! 2 = 130
          \<and> bytes b ! 3 = 130 \<and> bytes b ! 4 = 130 \<and> bytes b ! 5 = 130)"
proof -
  have m: "macropixels 2 1 = 1" by (simp add: macropixels_def)
  have h1: "frame_in_int_range 2 1" by (simp add: frame_in_int_range_def)
  have h2: "4 * macropixels 2 1 \<le> length [128, 128, 128, 128 :: u8]" by (simp add: m)
  have h3: "6 * macropixels 2 1 \<le> length [0, 0, 0, 0, 0, 0 :: u8]" by (simp add: m)
  have h4: "\<forall>k < 4 * macropixels 2 1. [128, 128, 128, 128 :: u8] ! k = 128"
    by (simp add: m less_Suc_eq numeral_eq_Suc all_conj_distrib)
  from neutral_point_130 [OF h1 h2 h3 h4]
  obtain b where r: "yuyv_to_rgb24 [128, 128, 128, 128] [0, 0, 0, 0, 0, 0] 2 1 = Inr b"
    and v: "\<forall>q < 6 * macropixels 2 1. bytes b ! q = 130"
    by blast
  have "bytes b ! 0 = 130" "bytes b ! 1 = 130" "bytes b ! 2 = 130"
    "bytes b ! 3 = 130" "bytes b ! 4 = 130" "bytes b ! 5 = 130"
    using v [rule_format, of 0] v [rule_format, of 1] v [rule_format, of 2]
      v [rule_format, of 3] v [rule_format, of 4] v [rule_format, of 5]
    by (simp_all add: m)
  with h1 r show ?thesis by blast
qed

text \<open>
  The FrameBuffer and the converter on an even number of pixels: the buffer has
  \<open>w*h*3\<close> bytes and one call writes the offsets \<open>0 ..< w*h*3\<close> in order, every byte
  once and none outside. This is what the allocation in \<^verbatim>\<open>proc_video\<close> and the loop
  of \<^verbatim>\<open>yuyv_to_rgb24\<close> are written for.
\<close>

lemma even_frame_fills_framebuffer:
  assumes "even (unat width * unat height)"
    and "unat width * unat height * 3 < 2 ^ 31"
    and "2 * (unat width * unat height) \<le> length yuyv"
    and "length rgb = rgb_size width height"
  shows "rgb_size width height = unat width * unat height * 3
         \<and> (\<exists>b. convert_frame yuyv rgb width height = Inr b
                \<and> written b = [0 ..< rgb_size width height])
         \<and> writes_each_byte_once (rgb_size width height) (convert_frame yuyv rgb width height)"
proof -
  let ?N = "unat width * unat height"
  have sz: "rgb_size width height = ?N * 3"
    using assms(2) by (simp add: rgb_size_def)
  have npix: "sint width * sint height = int ?N"
    using assms(2) by (rule sint_dims)
  have m: "macropixels (sint width) (sint height) = ?N div 2"
    using assms(1) npix by (rule macropixels_even)
  have e6: "6 * (?N div 2) = ?N * 3" and e4: "4 * (?N div 2) = 2 * ?N"
    using assms(1) by presburger+
  have a: "4 * macropixels (sint width) (sint height) \<le> length yuyv"
    using assms(3) e4 by (simp only: m)
  have b: "6 * macropixels (sint width) (sint height) \<le> length rgb"
    using assms(4) sz e6 by (simp only: m)
  from yuyv_to_rgb24_result [OF a b]
  obtain r where r: "yuyv_to_rgb24 yuyv rgb (sint width) (sint height) = Inr r"
    and w: "written r = [0 ..< 6 * macropixels (sint width) (sint height)]"
    by blast
  have w': "written r = [0 ..< rgb_size width height]"
    using w by (simp only: m e6 sz)
  have c: "convert_frame yuyv rgb width height = Inr r"
    using r by (simp add: convert_frame_def)
  have "writes_each_byte_once (rgb_size width height) (convert_frame yuyv rgb width height)"
    unfolding c by (simp add: writes_each_byte_once_def w')
  with sz c w' show ?thesis by blast
qed

lemma even_frame_fills_framebuffer_2x1:
  "even (unat (2 :: u32) * unat (1 :: u32)) \<and> rgb_size 2 1 = 6
   \<and> (\<exists>b. convert_frame [16, 128, 235, 128] [0, 0, 0, 0, 0, 0] 2 1 = Inr b
          \<and> written b = [0, 1, 2, 3, 4, 5])
   \<and> writes_each_byte_once 6 (convert_frame [16, 128, 235, 128] [0, 0, 0, 0, 0, 0] 2 1)"
proof -
  have h1: "even (unat (2 :: u32) * unat (1 :: u32))" by simp
  have h2: "unat (2 :: u32) * unat (1 :: u32) * 3 < 2 ^ 31" by simp
  have h3: "2 * (unat (2 :: u32) * unat (1 :: u32)) \<le> length [16, 128, 235, 128 :: u8]" by simp
  have h4: "length [0, 0, 0, 0, 0, 0 :: u8] = rgb_size 2 1" by (simp add: rgb_size_def)
  have s: "rgb_size 2 1 = 6" by (simp add: rgb_size_def)
  have u: "[0 ..< 6] = [0, 1, 2, 3, 4, 5]" by (simp add: upt_rec)
  from even_frame_fills_framebuffer [OF h1 h2 h3 h4] show ?thesis
    unfolding s u using h1 by simp
qed

text \<open>The converter and the worker on a negotiated 1 by 1 frame.\<close>

lemma convert_frame_1x1:
  "convert_frame [128, 128, 128, 128] [0, 0, 0] 1 1 = Inl (WriteOutOfBounds 3)"
  by (simp add: convert_frame_def yuyv_to_rgb24_def yuyv_loop.simps yuyv_body_def ebind_def
      load_u8_def store_u8_def Let_def clamp_u8_def drop_bit_eq_div)

lemma four_slots: "[0 ..< (4 :: nat)] = [0, 1, 2, 3]"
  by (simp add: upt_rec)

lemma framebuffer_1x1: "map (\<lambda>i. 0 :: u8) [0 ..< rgb_size 1 1] = [0, 0, 0]"
  by (simp add: rgb_size_def upt_rec)

text \<open>
  Claim C5. For all negotiated \<open>w\<close> and \<open>h\<close> the FrameBuffer has \<open>w*h*3\<close> bytes, and one
  call to the conversion function writes every byte of that buffer exactly once and
  writes no byte outside it.

  The code breaks this when the pixel count is odd. \<^verbatim>\<open>proc_video\<close> takes the
  dimensions the driver leaves in \<^verbatim>\<open>fmt.pix\<close> without a parity check and allocates
  \<open>w*h*3\<close> bytes; the loop of \<^verbatim>\<open>yuyv_to_rgb24\<close> steps by two pixels and stores pixel
  \<open>i+1\<close> unconditionally. On a 1 by 1 frame the buffer has 3 bytes and the call stores a
  fourth byte, at offset 3; the worker started on that format overruns its FrameBuffer
  on the first frame it dequeues.
\<close>

theorem odd_frame_overruns_framebuffer:
  "rgb_size 1 1 = 3
   \<and> convert_frame [128, 128, 128, 128] [0, 0, 0] 1 1 = Inl (WriteOutOfBounds 3)
   \<and> \<not> writes_each_byte_once (rgb_size 1 1) (convert_frame [128, 128, 128, 128] [0, 0, 0] 1 1)
   \<and> proc_video (good_video_env\<lparr>negotiated_width := 1\<rparr>) initial_shared
        [\<lparr>v_async = [], ui_events = [], select_r = SelectReady,
          dqbuf = Dequeued 0 [128, 128, 128, 128], output_size = (1, 1), requeue_ok = True\<rparr>]
       = Crashed (MemoryFault (WriteOutOfBounds 3))
           \<lparr>vi_shared = initial_shared, vi_stderr = [],
            vi_trace = [QBUF 0, QBUF 1, QBUF 2, QBUF 3, STREAMON, DQBUF 0],
            vi_rgb = [0, 0, 0]\<rparr>"
proof -
  have r: "rgb_size 1 1 = 3" by (simp add: rgb_size_def)
  have w: "\<not> writes_each_byte_once (rgb_size 1 1)
                (convert_frame [128, 128, 128, 128] [0, 0, 0] 1 1)"
    unfolding convert_frame_1x1 by (simp add: writes_each_byte_once_def)
  have p: "proc_video (good_video_env\<lparr>negotiated_width := 1\<rparr>) initial_shared
        [\<lparr>v_async = [], ui_events = [], select_r = SelectReady,
          dqbuf = Dequeued 0 [128, 128, 128, 128], output_size = (1, 1), requeue_ok = True\<rparr>]
       = Crashed (MemoryFault (WriteOutOfBounds 3))
           \<lparr>vi_shared = initial_shared, vi_stderr = [],
            vi_trace = [QBUF 0, QBUF 1, QBUF 2, QBUF 3, STREAMON, DQBUF 0],
            vi_rgb = [0, 0, 0]\<rparr>"
    by (simp add: proc_video_def good_video_env_def Let_def four_slots framebuffer_1x1
        convert_frame_1x1 observe_def RunState_def initial_shared_def)
  show ?thesis
    by (intro conjI) (rule r, rule convert_frame_1x1, rule w, rule p)
qed

text \<open>The theorem gives the call on the 3-byte buffer: it does not write each byte once.\<close>

theorem odd_frame_overruns_framebuffer_witness:
  "\<not> writes_each_byte_once 3 (convert_frame [128, 128, 128, 128] [0, 0, 0] 1 1)"
proof -
  have r: "rgb_size 1 1 = 3" by (simp add: rgb_size_def)
  from odd_frame_overruns_framebuffer
  have "\<not> writes_each_byte_once (rgb_size 1 1)
             (convert_frame [128, 128, 128, 128] [0, 0, 0] 1 1)"
    by (elim conjE)
  then show ?thesis unfolding r .
qed

section \<open>Presenter: the claims\<close>

text \<open>
  Claim C6, as stated: for all positive \<open>srcW, srcH, dstW, dstH\<close> the rectangle has size
  \<open>srcW*scale\<close> by \<open>srcH*scale\<close> and is centred. The rectangle's fields are
  \<^verbatim>\<open>float\<close>s, and a width of \<open>2^24 + 1\<close> is not one: it is stored as \<open>2^24\<close>, and the
  offset computed from the stored width is \<open>1/2\<close> instead of 0.
\<close>

theorem integer_fit_rect_float_counterexample:
  "integer_fit_rect 16777217 1 16777217 1
     = Some \<lparr>rect_x = 1 / 2, rect_y = 0, rect_w = 16777216, rect_h = 1\<rparr>
   \<and> fit_rect_spec 16777217 1 16777217 1
     = \<lparr>rect_x = 0, rect_y = 0, rect_w = 16777217, rect_h = 1\<rparr>
   \<and> integer_fit_rect 16777217 1 16777217 1 \<noteq> Some (fit_rect_spec 16777217 1 16777217 1)"
proof -
  have "dropped_bits 16777217 = Suc (dropped_bits 8388608)"
    by (subst dropped_bits.simps) simp
  also have "dropped_bits 8388608 = 0" by (rule dropped_bits_small) simp
  finally have e: "dropped_bits 16777217 = 1" by simp
  have f: "f32_of_int 16777217 = 16777216"
    unfolding f32_of_int_def Let_def by (simp add: e)
  have f1: "f32_of_int 1 = 1" and f0: "f32_of_int 0 = 0"
    by (rule f32_of_int_exact, simp)+
  have c: "integer_fit_rect 16777217 1 16777217 1
     = Some \<lparr>rect_x = 1 / 2, rect_y = 0, rect_w = 16777216, rect_h = 1\<rparr>"
    by (simp add: integer_fit_rect_def c_div_def Let_def f f1 f0)
  have s: "fit_rect_spec 16777217 1 16777217 1
     = \<lparr>rect_x = 0, rect_y = 0, rect_w = 16777217, rect_h = 1\<rparr>"
    by (simp add: fit_rect_spec_def fit_scale_spec_def)
  show ?thesis unfolding c s by simp
qed

text \<open>
  Claim C6, amended: for all positive \<open>srcW, srcH, dstW, dstH\<close> not above \<open>2^24\<close> (the
  integers a \<^verbatim>\<open>float\<close> holds exactly), the fit-rectangle computation yields
  \<open>scale = max(1, floor(min(dstW/srcW, dstH/srcH)))\<close> and a rectangle of size
  \<open>srcW*scale\<close> by \<open>srcH*scale\<close> centred in the destination surface; in particular
  640x480 in 1280x960 gives scale 2 and 1280x960 at (0,0), and 640x480 in 1000x1000
  gives scale 1 and 640x480 at (180,260).
\<close>

theorem integer_fit_rect_eq_spec:
  assumes "0 < src_w" "0 < src_h" "0 < dst_w" "0 < dst_h"
    and "src_w \<le> 2 ^ 24" "src_h \<le> 2 ^ 24" "dst_w \<le> 2 ^ 24" "dst_h \<le> 2 ^ 24"
  shows "integer_fit_rect src_w src_h dst_w dst_h = Some (fit_rect_spec src_w src_h dst_w dst_h)"
proof -
  define s where "s = fit_scale_spec src_w src_h dst_w dst_h"
  have s: "s = max 1 (min (dst_w div src_w) (dst_h div src_h))"
    unfolding s_def using assms(1,2) by (rule fit_scale_spec_eq)
  have code_s: "(let sx = c_div dst_w src_w; sy = c_div dst_h src_h;
                    s0 = (if sx < sy then sx else sy) in (if s0 < 1 then 1 else s0)) = s"
    using assms(1-4) by (simp add: c_div_pos s Let_def max_def min_def)
  have sw: "0 < src_w * s \<and> src_w * s \<le> max src_w dst_w"
    using assms(1,3) by (rule scaled_le) (auto simp: s max_def min_def)
  have sh: "0 < src_h * s \<and> src_h * s \<le> max src_h dst_h"
    using assms(2,4) by (rule scaled_le) (auto simp: s max_def min_def)
  define pw where "pw = src_w * s"
  define ph where "ph = src_h * s"
  have pw: "0 < pw" "pw \<le> 2 ^ 24"
    using sw assms(5,7) unfolding pw_def by (auto simp: max_def split: if_splits)
  have ph: "0 < ph" "ph \<le> 2 ^ 24"
    using sh assms(6,8) unfolding ph_def by (auto simp: max_def split: if_splits)
  have "f32_of_int pw = pw" "f32_of_int ph = ph"
    using pw ph by (auto intro!: f32_of_int_exact)
  then have fw: "f32_of_int (src_w * s) = src_w * s" and fh: "f32_of_int (src_h * s) = src_h * s"
    by (simp_all add: pw_def ph_def)
  have "\<bar>dst_w - pw\<bar> \<le> 2 ^ 24" "\<bar>dst_h - ph\<bar> \<le> 2 ^ 24"
    using pw ph assms(3,4,7,8) by linarith+
  then have "f32_of_int (dst_w - pw) = dst_w - pw" "f32_of_int (dst_h - ph) = dst_h - ph"
    by (auto intro!: f32_of_int_exact)
  then have fx: "f32_of_int (dst_w - src_w * s) = dst_w - src_w * s"
    and fy: "f32_of_int (dst_h - src_h * s) = dst_h - src_h * s"
    by (simp_all add: pw_def ph_def)
  have "integer_fit_rect src_w src_h dst_w dst_h =
          Some \<lparr>rect_x = of_int (f32_of_int (dst_w - f32_of_int (src_w * s))) * (1 / 2),
                 rect_y = of_int (f32_of_int (dst_h - f32_of_int (src_h * s))) * (1 / 2),
                 rect_w = of_int (f32_of_int (src_w * s)),
                 rect_h = of_int (f32_of_int (src_h * s))\<rparr>"
    using assms(1,2) code_s by (simp add: integer_fit_rect_def Let_def)
  also have "\<dots> = Some (fit_rect_spec src_w src_h dst_w dst_h)"
    unfolding fw fh fx fy by (simp add: fit_rect_spec_def Let_def s_def)
  finally show ?thesis .
qed

text \<open>The theorem at the two examples of the specification.\<close>

theorem integer_fit_rect_examples:
  "integer_fit_rect 640 480 1280 960
     = Some \<lparr>rect_x = 0, rect_y = 0, rect_w = 1280, rect_h = 960\<rparr>
   \<and> fit_scale_spec 640 480 1280 960 = 2
   \<and> integer_fit_rect 640 480 1000 1000
     = Some \<lparr>rect_x = 180, rect_y = 260, rect_w = 640, rect_h = 480\<rparr>
   \<and> fit_scale_spec 640 480 1000 1000 = 1"
  using integer_fit_rect_eq_spec [of 640 480 1280 960]
    integer_fit_rect_eq_spec [of 640 480 1000 1000]
  by (simp add: fit_rect_spec_def fit_scale_spec_def)

section \<open>Device selection, step by step\<close>

lemma strstr_sublist: "strstr haystack needle = sublist needle haystack"
  by (induction haystack) (simp_all add: sublist_Cons_right)

lemma first_match_find:
  "first_match ds selector = map_option fst (find (name_contains selector) ds)"
  by (induction ds selector rule: first_match.induct)
     (simp_all add: name_contains_def strstr_sublist split: option.splits)

lemma dropWhile_Nil_iff: "dropWhile P xs = [] \<longleftrightarrow> list_all P xs"
  by (simp add: dropWhile_eq_Nil_conv list_all_iff)

lemma takeWhile_all: "list_all P xs \<Longrightarrow> takeWhile P xs = xs"
  by (induction xs) simp_all

lemma takeWhile_Nil_not_all: "xs \<noteq> [] \<Longrightarrow> takeWhile P xs = [] \<Longrightarrow> \<not> list_all P xs"
  by (cases xs) (auto split: if_splits)

lemma strtol_unsigned_part:
  "strtol s =
     (let u = unsigned_part s; ds = takeWhile isdigit u
      in if ds = [] then (0, s)
         else (max LONG_MIN (min LONG_MAX
                 (if hd (dropWhile isspace s) = CHR ''-'' then - digits_value ds else digits_value ds)),
               dropWhile isdigit u))"
proof (cases "dropWhile isspace s")
  case Nil
  show ?thesis unfolding strtol_def unsigned_part_def Let_def Nil by simp
next
  case (Cons c r)
  show ?thesis unfolding strtol_def unsigned_part_def Let_def Cons by simp
qed

lemma strtol_end_Nil:
  assumes "s \<noteq> []"
  shows "snd (strtol s) = [] \<longleftrightarrow> parses_as_number s"
proof (cases "takeWhile isdigit (unsigned_part s) = []")
  case True
  then have "snd (strtol s) = s" by (simp add: strtol_unsigned_part Let_def)
  moreover have "\<not> parses_as_number s"
    using True takeWhile_Nil_not_all [of "unsigned_part s" isdigit]
    by (auto simp: parses_as_number_def)
  ultimately show ?thesis using assms by simp
next
  case False
  then have u: "unsigned_part s \<noteq> []" by auto
  from False have "snd (strtol s) = dropWhile isdigit (unsigned_part s)"
    by (simp add: strtol_unsigned_part Let_def)
  then show ?thesis using u by (simp only: parses_as_number_def dropWhile_Nil_iff) simp
qed

lemma strtol_value:
  assumes "parses_as_number s"
  shows "fst (strtol s) = number_of s"
proof -
  from assms have a: "list_all isdigit (unsigned_part s)" and u: "unsigned_part s \<noteq> []"
    by (simp_all add: parses_as_number_def)
  have t: "takeWhile isdigit (unsigned_part s) = unsigned_part s"
    using a by (rule takeWhile_all)
  show ?thesis using u by (simp add: strtol_unsigned_part number_of_def Let_def t)
qed

lemma pick_recording_device_nonempty:
  assumes "selector \<noteq> []"
  shows "pick_recording_device (Some ds) (Some selector) = selection_spec ds selector"
proof (cases "parses_as_number selector")
  case True
  then have e: "snd (strtol selector) = []" using assms by (simp add: strtol_end_Nil)
  have v: "fst (strtol selector) = number_of selector" using True by (rule strtol_value)
  obtain idx en where s: "strtol selector = (idx, en)" by (cases "strtol selector")
  with e v have "en = []" "idx = number_of selector" by simp_all
  then show ?thesis
    using assms True s by (simp add: pick_recording_device_def selection_spec_def Let_def)
next
  case False
  then have e: "snd (strtol selector) \<noteq> []" using assms by (simp add: strtol_end_Nil)
  obtain idx en where s: "strtol selector = (idx, en)" by (cases "strtol selector")
  with e have "en \<noteq> []" by simp
  then show ?thesis
    using assms False s
    by (simp add: pick_recording_device_def selection_spec_def Let_def first_match_find
        split: option.splits)
qed

section \<open>Device selection: the claims\<close>

text \<open>
  Claim C9, as stated: for every selector string and every enumerated device list the
  selection is the one of \<^const>\<open>selection_spec\<close>. It fails at the empty selector: the
  empty string is part of every name, so the claim selects the first named device, but
  the function tests \<^verbatim>\<open>selector[0] != '\0'\<close> first and keeps the default, silently.
\<close>

theorem empty_selector_counterexample:
  "pick_recording_device (Some [(7, Some ''Mic'')]) (Some '''')
     = (SDL_AUDIO_DEVICE_DEFAULT_RECORDING, [])
   \<and> selection_spec [(7, Some ''Mic'')] '''' = (7, [])
   \<and> pick_recording_device (Some [(7, Some ''Mic'')]) (Some '''')
       \<noteq> selection_spec [(7, Some ''Mic'')] ''''"
  by (simp add: pick_recording_device_def selection_spec_def parses_as_number_def
      unsigned_part_def name_contains_def SDL_AUDIO_DEVICE_DEFAULT_RECORDING_def)

text \<open>
  Claim C9, amended: for every non-empty selector string and every enumerated device
  list, recording-device selection resolves as follows: if the selector parses entirely
  as a number, that index is used only when it is within bounds, otherwise the default
  device is chosen with a diagnostic; otherwise the first device whose name contains the
  selector as a case-sensitive substring is chosen; if no name matches, the default
  device is chosen with a diagnostic. An empty selector chooses the default device
  without a diagnostic.
\<close>

theorem pick_recording_device_resolution:
  "(selector \<noteq> [] \<longrightarrow>
      pick_recording_device (Some ds) (Some selector) = selection_spec ds selector)
   \<and> pick_recording_device (Some ds) (Some []) = (SDL_AUDIO_DEVICE_DEFAULT_RECORDING, [])"
  using pick_recording_device_nonempty [of selector ds]
  by (simp add: pick_recording_device_def)

text \<open>
  The theorem on four devices, the second without a name: a substring that two names
  contain, the same substring in another case, an index within bounds and one beyond.
\<close>

theorem pick_recording_device_resolution_witness:
  "pick_recording_device
     (Some [(7, Some ''Mic''), (8, None), (9, Some ''USB Mic''), (10, Some ''USB Cam'')])
     (Some ''USB'') = (9, [])
   \<and> pick_recording_device
     (Some [(7, Some ''Mic''), (8, None), (9, Some ''USB Mic''), (10, Some ''USB Cam'')])
     (Some ''usb'') = (SDL_AUDIO_DEVICE_DEFAULT_RECORDING, [RecordingNotFound ''usb''])
   \<and> pick_recording_device
     (Some [(7, Some ''Mic''), (8, None), (9, Some ''USB Mic''), (10, Some ''USB Cam'')])
     (Some ''1'') = (8, [])
   \<and> pick_recording_device
     (Some [(7, Some ''Mic''), (8, None), (9, Some ''USB Mic''), (10, Some ''USB Cam'')])
     (Some ''4'') = (SDL_AUDIO_DEVICE_DEFAULT_RECORDING, [IndexUnavailable 4])"
proof -
  let ?ds = "[(7, Some ''Mic''), (8, None), (9, Some ''USB Mic''), (10, Some ''USB Cam'')]
               :: device list"
  have v: "selection_spec ?ds ''USB'' = (9, [])"
    "selection_spec ?ds ''usb'' = (SDL_AUDIO_DEVICE_DEFAULT_RECORDING, [RecordingNotFound ''usb''])"
    "selection_spec ?ds ''1'' = (8, [])"
    "selection_spec ?ds ''4'' = (SDL_AUDIO_DEVICE_DEFAULT_RECORDING, [IndexUnavailable 4])"
    by (simp_all add: selection_spec_def parses_as_number_def unsigned_part_def isspace_def
        isdigit_def name_contains_def number_of_def digits_value_def LONG_MAX_def LONG_MIN_def
        sublist_code)
  show ?thesis
    using pick_recording_device_resolution [of "''USB''" ?ds]
      pick_recording_device_resolution [of "''usb''" ?ds]
      pick_recording_device_resolution [of "''1''" ?ds]
      pick_recording_device_resolution [of "''4''" ?ds]
    by (simp add: v)
qed

section \<open>The stop flag, step by step\<close>

lemma RunState_do_write: "\<not> RunState (do_write w s)"
  by (cases w) (simp_all add: RunState_def)

lemma RunState_observe: "\<not> RunState s \<Longrightarrow> \<not> RunState (observe ws s)"
proof (induction ws arbitrary: s)
  case Nil
  then show ?case by (simp add: observe_def)
next
  case (Cons w ws)
  have "observe (w # ws) s = observe ws (do_write w s)" by (simp add: observe_def)
  then show ?case using Cons.IH [of "do_write w s"] RunState_do_write by simp
qed

lemma states_Cons: "\<exists>ss. states s ws = s # ss"
  by (cases ws) simp_all

lemma flips_stopped: "\<not> RunState s \<Longrightarrow> flips (map RunState (states s ws)) = 0"
proof (induction ws arbitrary: s)
  case Nil
  then show ?case by simp
next
  case (Cons w ws)
  obtain ss where ss: "states (do_write w s) ws = do_write w s # ss"
    using states_Cons by blast
  have "flips (map RunState (states (do_write w s) ws)) = 0"
    using Cons.IH RunState_do_write by blast
  then show ?case using Cons.prems ss RunState_do_write [of w s] by simp
qed

lemma flips_le_1: "flips (map RunState (states s ws)) \<le> 1"
proof (cases ws)
  case Nil
  then show ?thesis by simp
next
  case (Cons w ws')
  obtain ss where ss: "states (do_write w s) ws' = do_write w s # ss"
    using states_Cons by blast
  have "flips (map RunState (states (do_write w s) ws')) = 0"
    using flips_stopped RunState_do_write by blast
  then show ?thesis using Cons ss by simp
qed

section \<open>LifecycleCoordinator: the claims\<close>

text \<open>
  Claim C8. The shared RunState flag goes from true to false at most once and is never
  reversed: every write to it, by either worker, by the UI event path or by the signal
  handler, stores the stopping value, and no path sets it back to running.

  RunState is the condition both loops test. After any write it is false; once false,
  no sequence of writes makes it true; and along any sequence of writes from any state
  it changes at most once.
\<close>

theorem RunState_cleared_once:
  "\<not> RunState (do_write w s)
   \<and> (\<not> RunState s \<longrightarrow> \<not> RunState (observe ws s))
   \<and> flips (map RunState (states s ws)) \<le> 1"
  using RunState_do_write RunState_observe flips_le_1 by blast

text \<open>The theorem on a quit event followed by a signal and by the join in \<^verbatim>\<open>main\<close>.\<close>

theorem RunState_cleared_once_witness:
  "\<not> RunState (do_write VideoQuitEvent initial_shared)
   \<and> \<not> RunState (observe [SignalHandler, MainVideoJoined] (do_write VideoQuitEvent initial_shared))
   \<and> map RunState (states initial_shared [VideoQuitEvent, SignalHandler, MainVideoJoined])
       = [True, False, False, False]
   \<and> flips (map RunState (states initial_shared [VideoQuitEvent, SignalHandler, MainVideoJoined])) \<le> 1"
proof -
  have m: "map RunState (states initial_shared [VideoQuitEvent, SignalHandler, MainVideoJoined])
       = [True, False, False, False]"
    by (simp add: initial_shared_def RunState_def)
  from RunState_cleared_once [of VideoQuitEvent initial_shared
      "[VideoQuitEvent, SignalHandler, MainVideoJoined]"]
    RunState_cleared_once [of VideoQuitEvent "do_write VideoQuitEvent initial_shared"
      "[SignalHandler, MainVideoJoined]"]
  show ?thesis using m by simp
qed

section \<open>The audio worker, step by step\<close>

lemma pick_recording_device_messages:
  "m \<in> set (snd (pick_recording_device devices selector)) \<Longrightarrow>
     (\<exists>i. m = IndexUnavailable i) \<or> (\<exists>n. m = RecordingNotFound n)"
  by (auto simp: pick_recording_device_def Let_def split: option.splits if_splits prod.splits)

lemma pick_playback_device_messages:
  "m \<in> set (snd (pick_playback_device devices out_index)) \<Longrightarrow> (\<exists>i. m = SinkUnavailable i)"
  by (auto simp: pick_playback_device_def Let_def split: option.splits if_splits)

text \<open>The loop appends to \<^verbatim>\<open>stderr\<close> and never writes the flag itself.\<close>

lemma audio_loop_shared:
  "audio_loop st rs = Returned st' \<Longrightarrow>
     \<exists>n \<le> length rs. au_shared st' = observe (concat (map a_async (take n rs))) (au_shared st)"
proof (induction rs arbitrary: st)
  case Nil
  then show ?case by simp
next
  case (Cons r rs)
  let ?s1 = "st\<lparr>au_shared := observe (a_async r) (au_shared st)\<rparr>"
  have here: "au_shared ?s1 = observe (concat (map a_async (take 1 (r # rs)))) (au_shared st)"
    by simp
  have later: "\<exists>n \<le> length (r # rs).
      au_shared st' = observe (concat (map a_async (take n (r # rs)))) (au_shared st)"
    if "audio_loop st2 rs = Returned st'" and "au_shared st2 = au_shared ?s1" for st2
  proof -
    from Cons.IH [OF that(1)] obtain n where n: "n \<le> length rs"
      and e: "au_shared st' = observe (concat (map a_async (take n rs))) (au_shared st2)"
      by blast
    have "au_shared st' = observe (concat (map a_async (take (Suc n) (r # rs)))) (au_shared st)"
      using e that(2) by (simp add: observe_def)
    then show ?thesis using n by (intro exI [of _ "Suc n"]) simp
  qed
  show ?case
    using Cons.prems here later [of ?s1]
      later [of "?s1\<lparr>au_put := au_put ?s1 @ [get_data r (if 4096 < avail r then 4096 else avail r)]\<rparr>"]
    by (auto simp: Let_def split: if_splits intro: exI [of _ 1])
qed

lemma proc_audio_startup_fails:
  assumes "audio_startup_fails args env"
  shows "\<exists>st. proc_audio args env s rounds = Returned (1, st)
           \<and> GetAudioStreamDataFailed \<notin> set (au_stderr st)
           \<and> PutAudioStreamDataFailed \<notin> set (au_stderr st)"
proof -
  obtain rec_id m1 where p1: "pick_recording_device (rec_devices env) (a_dev args) = (rec_id, m1)"
    by (cases "pick_recording_device (rec_devices env) (a_dev args)")
  obtain out_id m2 where p2: "pick_playback_device (play_devices env) (a_out args) = (out_id, m2)"
    by (cases "pick_playback_device (play_devices env) (a_out args)")
  have n1: "GetAudioStreamDataFailed \<notin> set m1" "PutAudioStreamDataFailed \<notin> set m1"
    using pick_recording_device_messages [of _ "rec_devices env" "a_dev args"] p1 by auto
  have n2: "GetAudioStreamDataFailed \<notin> set m2" "PutAudioStreamDataFailed \<notin> set m2"
    using pick_playback_device_messages [of _ "play_devices env" "a_out args"] p2 by auto
  show ?thesis
    using assms n1 n2
    by (auto simp: proc_audio_def audio_startup_fails_def p1 p2 Let_def)
qed

lemma proc_audio_startup_ok:
  assumes "\<not> audio_startup_fails args env"
    and "proc_audio args env s rounds = Returned (rc, st)"
  shows "rc = 0"
proof -
  obtain rec_id m1 where p1: "pick_recording_device (rec_devices env) (a_dev args) = (rec_id, m1)"
    by (cases "pick_recording_device (rec_devices env) (a_dev args)")
  obtain out_id m2 where p2: "pick_playback_device (play_devices env) (a_out args) = (out_id, m2)"
    by (cases "pick_playback_device (play_devices env) (a_out args)")
  show ?thesis
    using assms
    by (auto simp: proc_audio_def audio_startup_fails_def p1 p2 Let_def split: outcome.splits)
qed

lemma default_pick:
  "pick_recording_device (Some []) (Some ''USB3. 0 capture Stereo analogico'')
     = (SDL_AUDIO_DEVICE_DEFAULT_RECORDING, [RecordingNotFound ''USB3. 0 capture Stereo analogico''])"
  by (simp add: pick_recording_device_def strtol_def isspace_def isdigit_def Let_def)

lemma default_pick_playback:
  "pick_playback_device (Some []) (- 1) = (SDL_AUDIO_DEVICE_DEFAULT_PLAYBACK, [])"
  by (simp add: pick_playback_device_def)

lemma read_failure_run:
  "proc_audio default_audio_args good_audio_env initial_shared
      [\<lparr>a_async = [], avail = 100, get_data = (\<lambda>n. - 1), put_ok = True\<rparr>]
     = Returned (0, \<lparr>au_shared = \<lparr>running = True, g_stop = False\<rparr>,
                     au_stderr = [RecordingNotFound ''USB3. 0 capture Stereo analogico'',
                                  GetAudioStreamDataFailed],
                     au_put = []\<rparr>)"
  by (simp add: proc_audio_def default_audio_args_def good_audio_env_def initial_shared_def
      default_pick default_pick_playback Let_def observe_def RunState_def)

lemma write_failure_run:
  "proc_audio default_audio_args good_audio_env initial_shared
      [\<lparr>a_async = [], avail = 8000, get_data = (\<lambda>n. n), put_ok = True\<rparr>,
       \<lparr>a_async = [], avail = 100, get_data = (\<lambda>n. n), put_ok = False\<rparr>]
     = Returned (0, \<lparr>au_shared = \<lparr>running = True, g_stop = False\<rparr>,
                     au_stderr = [RecordingNotFound ''USB3. 0 capture Stereo analogico'',
                                  PutAudioStreamDataFailed],
                     au_put = [4096]\<rparr>)"
  by (simp add: proc_audio_def default_audio_args_def good_audio_env_def initial_shared_def
      default_pick default_pick_playback Let_def observe_def RunState_def)

lemma audio_stop_run:
  "proc_audio default_audio_args good_audio_env initial_shared
      [\<lparr>a_async = [MainVideoJoined], avail = 0, get_data = (\<lambda>n. 0), put_ok = True\<rparr>]
     = Returned (0, \<lparr>au_shared = \<lparr>running = False, g_stop = False\<rparr>,
                     au_stderr = [RecordingNotFound ''USB3. 0 capture Stereo analogico''],
                     au_put = []\<rparr>)"
  by (simp add: proc_audio_def default_audio_args_def good_audio_env_def initial_shared_def
      default_pick default_pick_playback Let_def observe_def RunState_def)

section \<open>AudioPassthroughWorker: the claims\<close>

text \<open>
  Claim C10. The audio worker returns 1 only when opening or binding one of its streams
  fails during startup; if its loop ends because a stream read or write failed, it
  still returns 0, the value of a clean exit.

  A startup failure makes the worker return 1 whatever the rounds are. Whenever it
  returns, the code is 0 or 1, it is 1 exactly on a startup failure, and it is 0 when a
  read or a write failure was reported.
\<close>

theorem proc_audio_return_code:
  "(audio_startup_fails args env \<longrightarrow> (\<exists>st. proc_audio args env s rounds = Returned (1, st)))
   \<and> (\<forall>rc st. proc_audio args env s rounds = Returned (rc, st) \<longrightarrow>
         (rc = 1 \<longleftrightarrow> audio_startup_fails args env) \<and> (rc = 0 \<or> rc = 1)
         \<and> (GetAudioStreamDataFailed \<in> set (au_stderr st)
              \<or> PutAudioStreamDataFailed \<in> set (au_stderr st) \<longrightarrow> rc = 0))"
proof (cases "audio_startup_fails args env")
  case True
  from proc_audio_startup_fails [OF True, of s rounds] show ?thesis using True by auto
next
  case False
  then show ?thesis using proc_audio_startup_ok [OF False, of s rounds] by auto
qed

text \<open>
  The theorem on a run whose first read fails, on a run that ends because the flag was
  cleared, and on a run whose recording device cannot be opened.
\<close>

theorem proc_audio_return_code_witness:
  "\<not> audio_startup_fails default_audio_args good_audio_env
   \<and> proc_audio default_audio_args good_audio_env initial_shared
        [\<lparr>a_async = [], avail = 100, get_data = (\<lambda>n. - 1), put_ok = True\<rparr>]
       = Returned (0, \<lparr>au_shared = \<lparr>running = True, g_stop = False\<rparr>,
                       au_stderr = [RecordingNotFound ''USB3. 0 capture Stereo analogico'',
                                    GetAudioStreamDataFailed],
                       au_put = []\<rparr>)
   \<and> proc_audio default_audio_args good_audio_env initial_shared
        [\<lparr>a_async = [MainVideoJoined], avail = 0, get_data = (\<lambda>n. 0), put_ok = True\<rparr>]
       = Returned (0, \<lparr>au_shared = \<lparr>running = False, g_stop = False\<rparr>,
                       au_stderr = [RecordingNotFound ''USB3. 0 capture Stereo analogico''],
                       au_put = []\<rparr>)
   \<and> audio_startup_fails default_audio_args (good_audio_env\<lparr>open_rec := (\<lambda>d. 0)\<rparr>)
   \<and> (\<exists>st. proc_audio default_audio_args (good_audio_env\<lparr>open_rec := (\<lambda>d. 0)\<rparr>)
               initial_shared [] = Returned (1, st))"
proof -
  have ok: "\<not> audio_startup_fails default_audio_args good_audio_env"
    by (simp add: audio_startup_fails_def good_audio_env_def)
  have bad: "audio_startup_fails default_audio_args (good_audio_env\<lparr>open_rec := (\<lambda>d. 0)\<rparr>)"
    by (simp add: audio_startup_fails_def)
  from proc_audio_return_code [of default_audio_args "good_audio_env\<lparr>open_rec := (\<lambda>d. 0)\<rparr>"
      initial_shared "[]"] bad
  have "\<exists>st. proc_audio default_audio_args (good_audio_env\<lparr>open_rec := (\<lambda>d. 0)\<rparr>)
               initial_shared [] = Returned (1, st)"
    by blast
  then show ?thesis using ok bad read_failure_run audio_stop_run by blast
qed

text \<open>
  Claim C2. When a stream read or write fails in the audio loop, the worker leaves the
  loop and sets the shared RunState flag to false, so that the video worker stops too;
  a normal exit does not write the flag.

  The worker has no assignment to the flag at all. On a failed read, and on a failed
  write after a successful round, it returns 0 and RunState still holds: the video
  worker goes on. The video worker, for its part, clears the flag after its loop.
\<close>

theorem audio_failure_leaves_RunState:
  "proc_audio default_audio_args good_audio_env initial_shared
      [\<lparr>a_async = [], avail = 100, get_data = (\<lambda>n. - 1), put_ok = True\<rparr>]
     = Returned (0, \<lparr>au_shared = \<lparr>running = True, g_stop = False\<rparr>,
                     au_stderr = [RecordingNotFound ''USB3. 0 capture Stereo analogico'',
                                  GetAudioStreamDataFailed],
                     au_put = []\<rparr>)
   \<and> proc_audio default_audio_args good_audio_env initial_shared
      [\<lparr>a_async = [], avail = 8000, get_data = (\<lambda>n. n), put_ok = True\<rparr>,
       \<lparr>a_async = [], avail = 100, get_data = (\<lambda>n. n), put_ok = False\<rparr>]
     = Returned (0, \<lparr>au_shared = \<lparr>running = True, g_stop = False\<rparr>,
                     au_stderr = [RecordingNotFound ''USB3. 0 capture Stereo analogico'',
                                  PutAudioStreamDataFailed],
                     au_put = [4096]\<rparr>)
   \<and> RunState \<lparr>running = True, g_stop = False\<rparr>"
  by (simp add: read_failure_run write_failure_run RunState_def)

text \<open>The theorem gives the flag after the failed read: the worker returns 0 with RunState set.\<close>

theorem audio_failure_leaves_RunState_witness:
  "\<exists>st. proc_audio default_audio_args good_audio_env initial_shared
           [\<lparr>a_async = [], avail = 100, get_data = (\<lambda>n. - 1), put_ok = True\<rparr>]
          = Returned (0, st)
        \<and> RunState (au_shared st)"
  using audio_failure_leaves_RunState by (simp add: RunState_def)

section \<open>The capture loop, step by step\<close>

lemma requeue_after_present_Nil: "requeue_after_present []"
  by (simp add: requeue_after_present_def)

lemma requeue_after_present_no_QBUF:
  assumes "requeue_after_present tr" and "\<forall>a \<in> set xs. \<forall>k. a \<noteq> QBUF k"
  shows "requeue_after_present (tr @ xs)"
  unfolding requeue_after_present_def
proof (intro allI impI)
  fix n k assume n: "n < length (tr @ xs)" and q: "(tr @ xs) ! n = QBUF k"
  have "n < length tr"
  proof (rule ccontr)
    assume "\<not> n < length tr"
    then have "(tr @ xs) ! n = xs ! (n - length tr)" "n - length tr < length xs"
      using n by (simp_all add: nth_append)
    then have "(tr @ xs) ! n \<in> set xs" by simp
    with assms(2) q show False by auto
  qed
  then have "tr ! n = QBUF k" using q by (simp add: nth_append)
  with assms(1) \<open>n < length tr\<close>
  have p: "6 \<le> n \<and> tr ! (n - 6) = DQBUF k \<and> tr ! (n - 5) = Convert k
        \<and> (\<exists>m. tr ! (n - 4) = UpdateTexture m) \<and> tr ! (n - 3) = RenderClear
        \<and> (\<exists>d. tr ! (n - 2) = RenderTexture d) \<and> tr ! (n - 1) = RenderPresent"
    unfolding requeue_after_present_def by blast
  have "(tr @ xs) ! (n - i) = tr ! (n - i)" for i
  proof -
    have "n - i < length tr" using \<open>n < length tr\<close> by linarith
    then show ?thesis by (simp add: nth_append)
  qed
  with p show "6 \<le> n \<and> (tr @ xs) ! (n - 6) = DQBUF k \<and> (tr @ xs) ! (n - 5) = Convert k
        \<and> (\<exists>m. (tr @ xs) ! (n - 4) = UpdateTexture m) \<and> (tr @ xs) ! (n - 3) = RenderClear
        \<and> (\<exists>d. (tr @ xs) ! (n - 2) = RenderTexture d) \<and> (tr @ xs) ! (n - 1) = RenderPresent"
    by simp
qed

lemma requeue_after_present_round:
  assumes "requeue_after_present tr"
  shows "requeue_after_present
           (tr @ [DQBUF j, Convert j, UpdateTexture m, RenderClear, RenderTexture d, RenderPresent, QBUF j])"
proof -
  let ?pre = "[DQBUF j, Convert j, UpdateTexture m, RenderClear, RenderTexture d, RenderPresent]"
  let ?t = "tr @ ?pre"
  have t: "requeue_after_present ?t"
    using assms by (rule requeue_after_present_no_QBUF) simp
  have len: "length ?t = length tr + 6" by simp
  show ?thesis
    unfolding requeue_after_present_def
  proof (intro allI impI)
    fix n k
    let ?all = "tr @ [DQBUF j, Convert j, UpdateTexture m, RenderClear, RenderTexture d, RenderPresent, QBUF j]"
    assume n: "n < length ?all" and q: "?all ! n = QBUF k"
    have all: "?all = ?t @ [QBUF j]" by simp
    show "6 \<le> n \<and> ?all ! (n - 6) = DQBUF k \<and> ?all ! (n - 5) = Convert k
        \<and> (\<exists>m. ?all ! (n - 4) = UpdateTexture m) \<and> ?all ! (n - 3) = RenderClear
        \<and> (\<exists>d. ?all ! (n - 2) = RenderTexture d) \<and> ?all ! (n - 1) = RenderPresent"
    proof (cases "n < length ?t")
      case True
      then have "?t ! n = QBUF k" using q unfolding all by (simp only: nth_append if_True)
      with t True
      have p: "6 \<le> n \<and> ?t ! (n - 6) = DQBUF k \<and> ?t ! (n - 5) = Convert k
        \<and> (\<exists>m. ?t ! (n - 4) = UpdateTexture m) \<and> ?t ! (n - 3) = RenderClear
        \<and> (\<exists>d. ?t ! (n - 2) = RenderTexture d) \<and> ?t ! (n - 1) = RenderPresent"
        unfolding requeue_after_present_def by blast
      have "?all ! (n - i) = ?t ! (n - i)" for i
      proof -
        have "n - i < length ?t" using True by linarith
        then show ?thesis unfolding all by (simp only: nth_append if_True)
      qed
      with p show ?thesis by simp
    next
      case False
      then have e: "n = length tr + 6" using n by simp
      then have "k = j" using q by (simp add: nth_append)
      then show ?thesis unfolding e by (simp add: nth_append)
    qed
  qed
qed


lemma requeue_after_present_append:
  assumes "requeue_after_present a" and "requeue_after_present b"
  shows "requeue_after_present (a @ b)"
  unfolding requeue_after_present_def
proof (intro allI impI)
  fix n k assume n: "n < length (a @ b)" and q: "(a @ b) ! n = QBUF k"
  show "6 \<le> n \<and> (a @ b) ! (n - 6) = DQBUF k \<and> (a @ b) ! (n - 5) = Convert k
        \<and> (\<exists>m. (a @ b) ! (n - 4) = UpdateTexture m) \<and> (a @ b) ! (n - 3) = RenderClear
        \<and> (\<exists>d. (a @ b) ! (n - 2) = RenderTexture d) \<and> (a @ b) ! (n - 1) = RenderPresent"
  proof (cases "n < length a")
    case True
    then have "a ! n = QBUF k" using q by (simp add: nth_append)
    with assms(1) True
    have p: "6 \<le> n \<and> a ! (n - 6) = DQBUF k \<and> a ! (n - 5) = Convert k
        \<and> (\<exists>m. a ! (n - 4) = UpdateTexture m) \<and> a ! (n - 3) = RenderClear
        \<and> (\<exists>d. a ! (n - 2) = RenderTexture d) \<and> a ! (n - 1) = RenderPresent"
      unfolding requeue_after_present_def by blast
    have "(a @ b) ! (n - i) = a ! (n - i)" for i
    proof -
      have "n - i < length a" using True by linarith
      then show ?thesis by (simp add: nth_append)
    qed
    with p show ?thesis by simp
  next
    case False
    define n' where "n' = n - length a"
    have n': "n' < length b" "n = length a + n'" using False n by (simp_all add: n'_def)
    have "b ! n' = QBUF k" using q False by (simp add: nth_append n'_def)
    with assms(2) n'(1)
    have p: "6 \<le> n' \<and> b ! (n' - 6) = DQBUF k \<and> b ! (n' - 5) = Convert k
        \<and> (\<exists>m. b ! (n' - 4) = UpdateTexture m) \<and> b ! (n' - 3) = RenderClear
        \<and> (\<exists>d. b ! (n' - 2) = RenderTexture d) \<and> b ! (n' - 1) = RenderPresent"
      unfolding requeue_after_present_def by blast
    have "(a @ b) ! (n - i) = b ! (n' - i)" if "i \<le> 6" for i
    proof -
      have "\<not> n - i < length a" "n - i - length a = n' - i" using that p n'(2) by linarith+
      then show ?thesis by (simp add: nth_append)
    qed
    with p show ?thesis using n'(2) by simp
  qed
qed

lemma video_loop_trace:
  "\<exists>tr. vi_trace (final_state (video_loop width height st rounds)) = vi_trace st @ tr
        \<and> requeue_after_present tr"
proof (induction rounds arbitrary: st)
  case Nil
  show ?case by (simp add: final_state_def requeue_after_present_Nil)
next
  case (Cons r rs)
  let ?s1 = "st\<lparr>vi_shared := observe (v_async r) (vi_shared st)\<rparr>"
  let ?s2 = "?s1\<lparr>vi_shared := fold poll_event (ui_events r) (vi_shared ?s1)\<rparr>"
  have same: "\<exists>tr. vi_trace (final_state (video_loop width height s' rs)) = vi_trace st @ tr
        \<and> requeue_after_present tr" if "vi_trace s' = vi_trace st" for s'
    using Cons.IH [of s'] that by simp
  have stop: "\<exists>tr. vi_trace s' = vi_trace st @ tr \<and> requeue_after_present tr"
    if "vi_trace s' = vi_trace st" for s'
    using that requeue_after_present_Nil by simp
  show ?case
  proof (cases "RunState (vi_shared ?s1)")
    case False
    then show ?thesis using stop [of ?s1] by (simp add: Let_def final_state_def)
  next
    case run: True
    show ?thesis
    proof (cases "select_r r")
      case SelectInterrupted
      then show ?thesis using run same [of ?s2] by (simp add: Let_def)
    next
      case SelectTimeout
      then show ?thesis using run same [of ?s2] by (simp add: Let_def)
    next
      case SelectError
      then show ?thesis using run stop [of ?s2] by (simp add: Let_def final_state_def)
    next
      case SelectReady
      show ?thesis
      proof (cases "dqbuf r")
        case DqWouldBlock
        then show ?thesis using run SelectReady same [of ?s2] by (simp add: Let_def)
      next
        case DqError
        then show ?thesis using run SelectReady stop [of ?s2] by (simp add: Let_def final_state_def)
      next
        case (Dequeued idx frame)
        let ?s3 = "?s2\<lparr>vi_trace := vi_trace ?s2 @ [DQBUF idx]\<rparr>"
        show ?thesis
        proof (cases "convert_frame frame (vi_rgb ?s3) width height")
          case (Inl e)
          have "requeue_after_present ([] @ [DQBUF idx])"
            by (rule requeue_after_present_no_QBUF [OF requeue_after_present_Nil]) simp
          then show ?thesis
            using run SelectReady Dequeued Inl by (simp add: Let_def final_state_def)
        next
          case (Inr b)
          let ?s4 = "?s3\<lparr>vi_rgb := bytes b,
                          vi_trace := vi_trace ?s3 @ [Convert idx, UpdateTexture (bytes b)]\<rparr>"
          show ?thesis
          proof (cases "integer_fit_rect (sint width) (sint height)
                          (fst (output_size r)) (snd (output_size r))")
            case None
            have "requeue_after_present ([] @ [DQBUF idx, Convert idx, UpdateTexture (bytes b)])"
              by (rule requeue_after_present_no_QBUF [OF requeue_after_present_Nil]) simp
            then show ?thesis
              using run SelectReady Dequeued Inr None by (simp add: Let_def final_state_def)
          next
            case (Some dst)
            let ?blk = "[DQBUF idx, Convert idx, UpdateTexture (bytes b), RenderClear,
                         RenderTexture dst, RenderPresent, QBUF idx]"
            let ?s5 = "?s4\<lparr>vi_trace := vi_trace ?s4 @
                          [RenderClear, RenderTexture dst, RenderPresent, QBUF idx]\<rparr>"
            have tr5: "vi_trace ?s5 = vi_trace st @ ?blk" by simp
            have blk: "requeue_after_present ([] @ ?blk)"
              by (rule requeue_after_present_round [OF requeue_after_present_Nil])
            show ?thesis
            proof (cases "requeue_ok r")
              case False
              have "video_loop width height st (r # rs)
                      = Returned (?s5\<lparr>vi_stderr := vi_stderr ?s5 @ [RequeueFailed]\<rparr>)"
                using run SelectReady Dequeued Inr Some False by (simp add: Let_def)
              then show ?thesis using blk by (simp add: final_state_def)
            next
              case True
              have step: "video_loop width height st (r # rs) = video_loop width height ?s5 rs"
                using run SelectReady Dequeued Inr Some True by (simp add: Let_def)
              from Cons.IH [of ?s5] obtain tr
                where tr: "vi_trace (final_state (video_loop width height ?s5 rs)) = vi_trace ?s5 @ tr"
                  and ok: "requeue_after_present tr"
                by blast
              have "requeue_after_present (?blk @ tr)"
                using blk ok requeue_after_present_append [of ?blk tr] by simp
              moreover have "vi_trace (final_state (video_loop width height st (r # rs)))
                               = vi_trace st @ (?blk @ tr)"
                unfolding step tr tr5 by simp
              ultimately show ?thesis by blast
            qed
          qed
        qed
      qed
    qed
  qed
qed

lemma convert_neutral_2x1:
  "convert_frame [128, 128, 128, 128] [0, 0, 0, 0, 0, 0] 2 1
     = Inr \<lparr>bytes = [130, 130, 130, 130, 130, 130], written = [0, 1, 2, 3, 4, 5]\<rparr>"
  by (simp add: convert_frame_def yuyv_to_rgb24_def yuyv_loop.simps yuyv_body_def ebind_def
      load_u8_def store_u8_def Let_def clamp_u8_def drop_bit_eq_div)

lemma integer_fit_rect_2x1:
  "integer_fit_rect 2 1 4 2 = Some \<lparr>rect_x = 0, rect_y = 0, rect_w = 4, rect_h = 2\<rparr>"
  by (simp add: integer_fit_rect_def c_div_def Let_def f32_of_int_exact)

lemma capture_run:
  "video_loop 2 1
     \<lparr>vi_shared = initial_shared, vi_stderr = [], vi_trace = [], vi_rgb = [0, 0, 0, 0, 0, 0]\<rparr>
     [\<lparr>v_async = [], ui_events = [EventOther], select_r = SelectReady,
       dqbuf = Dequeued 3 [128, 128, 128, 128], output_size = (4, 2), requeue_ok = True\<rparr>,
      \<lparr>v_async = [], ui_events = [EventKeyDown True], select_r = SelectTimeout,
       dqbuf = DqWouldBlock, output_size = (4, 2), requeue_ok = True\<rparr>,
      \<lparr>v_async = [], ui_events = [], select_r = SelectTimeout,
       dqbuf = DqWouldBlock, output_size = (4, 2), requeue_ok = True\<rparr>]
   = Returned
       \<lparr>vi_shared = \<lparr>running = False, g_stop = False\<rparr>, vi_stderr = [],
        vi_trace = [DQBUF 3, Convert 3, UpdateTexture [130, 130, 130, 130, 130, 130], RenderClear,
                    RenderTexture \<lparr>rect_x = 0, rect_y = 0, rect_w = 4, rect_h = 2\<rparr>,
                    RenderPresent, QBUF 3],
        vi_rgb = [130, 130, 130, 130, 130, 130]\<rparr>"
  by (simp add: Let_def observe_def RunState_def initial_shared_def convert_neutral_2x1
      integer_fit_rect_2x1)

section \<open>CaptureWorker: the claims\<close>

text \<open>
  Claim C7. In every iteration of the capture loop, a dequeued buffer slot is requeued
  to the kernel (\<^verbatim>\<open>VIDIOC_QBUF\<close>) only strictly after the conversion of its contents and
  the upload, draw and present of the converted frame have completed.

  Whatever the rounds are and however the run ends (also when it has not ended), the
  actions the loop adds to the trace satisfy \<^const>\<open>requeue_after_present\<close>: every
  \<^verbatim>\<open>VIDIOC_QBUF\<close> of a slot comes right after the dequeue of that slot, its conversion,
  the upload, and the clear, draw and present, in this order.
\<close>

theorem requeue_only_after_present:
  "\<exists>tr. vi_trace (final_state (video_loop width height st rounds)) = vi_trace st @ tr
        \<and> requeue_after_present tr"
  by (rule video_loop_trace)

text \<open>The theorem on a run that shows one frame and then stops on the escape key.\<close>

theorem requeue_only_after_present_witness:
  "video_loop 2 1
     \<lparr>vi_shared = initial_shared, vi_stderr = [], vi_trace = [], vi_rgb = [0, 0, 0, 0, 0, 0]\<rparr>
     [\<lparr>v_async = [], ui_events = [EventOther], select_r = SelectReady,
       dqbuf = Dequeued 3 [128, 128, 128, 128], output_size = (4, 2), requeue_ok = True\<rparr>,
      \<lparr>v_async = [], ui_events = [EventKeyDown True], select_r = SelectTimeout,
       dqbuf = DqWouldBlock, output_size = (4, 2), requeue_ok = True\<rparr>,
      \<lparr>v_async = [], ui_events = [], select_r = SelectTimeout,
       dqbuf = DqWouldBlock, output_size = (4, 2), requeue_ok = True\<rparr>]
   = Returned
       \<lparr>vi_shared = \<lparr>running = False, g_stop = False\<rparr>, vi_stderr = [],
        vi_trace = [DQBUF 3, Convert 3, UpdateTexture [130, 130, 130, 130, 130, 130], RenderClear,
                    RenderTexture \<lparr>rect_x = 0, rect_y = 0, rect_w = 4, rect_h = 2\<rparr>,
                    RenderPresent, QBUF 3],
        vi_rgb = [130, 130, 130, 130, 130, 130]\<rparr>
   \<and> requeue_after_present
        [DQBUF 3, Convert 3, UpdateTexture [130, 130, 130, 130, 130, 130], RenderClear,
         RenderTexture \<lparr>rect_x = 0, rect_y = 0, rect_w = 4, rect_h = 2\<rparr>, RenderPresent, QBUF 3]"
  using requeue_only_after_present [of 2 1
     "\<lparr>vi_shared = initial_shared, vi_stderr = [], vi_trace = [], vi_rgb = [0, 0, 0, 0, 0, 0]\<rparr>"
     "[\<lparr>v_async = [], ui_events = [EventOther], select_r = SelectReady,
       dqbuf = Dequeued 3 [128, 128, 128, 128], output_size = (4, 2), requeue_ok = True\<rparr>,
      \<lparr>v_async = [], ui_events = [EventKeyDown True], select_r = SelectTimeout,
       dqbuf = DqWouldBlock, output_size = (4, 2), requeue_ok = True\<rparr>,
      \<lparr>v_async = [], ui_events = [], select_r = SelectTimeout,
       dqbuf = DqWouldBlock, output_size = (4, 2), requeue_ok = True\<rparr>]"]
  unfolding capture_run by (simp add: final_state_def)

section \<open>The program: the claims\<close>

lemma main_after_threads_started:
  assumes "open_ok env" "sdl_init_ok env" "video_thread_ok env" "audio_thread_ok env"
  shows "main env = Exit 0 \<or> main env = NoExit \<or> (\<exists>c. main env = Killed c)"
  using assms by (simp add: main_def Let_def split: outcome.splits prod.splits)

lemma proc_video_s_fmt_fails:
  "proc_video (good_video_env\<lparr>s_fmt_ok := False\<rparr>) initial_shared rounds
     = Returned (1, \<lparr>vi_shared = initial_shared, vi_stderr = [S_FMT_Failed], vi_trace = [], vi_rgb = []\<rparr>)"
  by (simp add: proc_video_def good_video_env_def Let_def)

text \<open>
  Claim C1. The exit code is 0 on clean shutdown and 1 whenever an unrecoverable startup
  failure occurs: device open, format negotiation, buffer grant or mapping, window,
  renderer or texture creation, FrameBuffer allocation, audio stream open or bind.

  \<^verbatim>\<open>main\<close> returns 1 when the device cannot be opened, and the workers return 1 on
  their startup failures; but \<^verbatim>\<open>main\<close> joins both threads with \<^verbatim>\<open>NULL\<close> and then
  returns 0. When the format is rejected, \<^verbatim>\<open>proc_video\<close> returns 1 and the process
  exits with 0.
\<close>

theorem startup_failure_exits_zero:
  "proc_video (good_video_env\<lparr>s_fmt_ok := False\<rparr>) initial_shared []
     = Returned (1, \<lparr>vi_shared = initial_shared, vi_stderr = [S_FMT_Failed], vi_trace = [], vi_rgb = []\<rparr>)
   \<and> main \<lparr>open_ok = True, sdl_init_ok = True, video_thread_ok = True, audio_thread_ok = True,
           m_video = good_video_env\<lparr>s_fmt_ok := False\<rparr>, m_video_rounds = [],
           m_audio_args = default_audio_args, m_audio = good_audio_env,
           m_audio_rounds = [\<lparr>a_async = [MainVideoJoined], avail = 0, get_data = (\<lambda>n. 0),
                              put_ok = True\<rparr>]\<rparr>
     = Exit 0"
  by (simp add: main_def proc_video_s_fmt_fails audio_stop_run)

text \<open>The theorem gives the exit code of that run: it is not 1.\<close>

theorem startup_failure_exits_zero_witness:
  "main \<lparr>open_ok = True, sdl_init_ok = True, video_thread_ok = True, audio_thread_ok = True,
         m_video = good_video_env\<lparr>s_fmt_ok := False\<rparr>, m_video_rounds = [],
         m_audio_args = default_audio_args, m_audio = good_audio_env,
         m_audio_rounds = [\<lparr>a_async = [MainVideoJoined], avail = 0, get_data = (\<lambda>n. 0),
                            put_ok = True\<rparr>]\<rparr>
     \<noteq> Exit 1"
  using startup_failure_exits_zero by simp

end
